theory Spec2Isabelle
  imports Main "HOL-Library.Word"
begin

section \<open>The chunked transfer over the data channel (chunkFile, sendFile, createFileReceiver of the webrtc module)\<close>

subsection \<open>Bytes, files and frames\<close>

type_synonym byte = "8 word"

text \<open>An ArrayBuffer is the list of its bytes; \<open>byteLength\<close> is \<open>length\<close>.\<close>

type_synonym bytes = "byte list"

definition CHUNK_SIZE :: nat where
  "CHUNK_SIZE = 16 * 1024"

definition BUFFER_THRESHOLD :: nat where
  "BUFFER_THRESHOLD = 64 * 1024"

text \<open>\<open>arrayBuffer.slice(begin, end)\<close> for indices that are not negative.\<close>

definition slice :: "bytes \<Rightarrow> nat \<Rightarrow> nat \<Rightarrow> bytes" where
  "slice arrayBuffer begin end = take (end - begin) (drop begin arrayBuffer)"

text \<open>A browser File: its name, its MIME type and the bytes a FileReader loads from it.\<close>

record File =
  name :: string
  type :: string
  content :: bytes

definition file_size :: "File \<Rightarrow> nat" where
  "file_size f = length (content f)"

datatype js_error = SyntaxError | TypeError | ReadFailed

text \<open>
  What \<open>JSON.parse\<close> returns for a string received on the data channel, as far as the
  receiver looks at it: an object whose \<open>type\<close> is \<open>file-meta\<close> (with its name, size and
  mimeType), an object whose \<open>type\<close> is \<open>file-end\<close>, the value \<open>null\<close> (reading a property
  of it throws), or any other value. A string is either the JSON text of such a value or
  not JSON at all.
\<close>

datatype message = FileMeta string nat string | FileEnd | JsonNull | OtherJson

datatype js_string = Json message | NotJson

datatype data = Str js_string | Buf bytes

text \<open>
  \<open>JSON.stringify\<close> of such a value gives its JSON text, which \<open>JSON.parse\<close> reads back as
  the same value.
\<close>

definition JSON_stringify :: "message \<Rightarrow> js_string" where
  "JSON_stringify m = Json m"

fun JSON_parse :: "js_string \<Rightarrow> js_error + message" where
  "JSON_parse (Json m) = Inr m"
| "JSON_parse NotJson = Inl SyntaxError"

subsection \<open>chunkFile\<close>

text \<open>
  The loop of \<open>reader.onload\<close>:
  \<^verbatim>\<open>for (let offset = 0; offset < arrayBuffer.byteLength; offset += CHUNK_SIZE) {
    const end = Math.min(offset + CHUNK_SIZE, arrayBuffer.byteLength);
    chunks.push(arrayBuffer.slice(offset, end)); }\<close>
\<close>

function chunkLoop :: "bytes \<Rightarrow> nat \<Rightarrow> bytes list \<Rightarrow> bytes list" where
  "chunkLoop arrayBuffer offset chunks =
     (if offset < length arrayBuffer
      then (let end = min (offset + CHUNK_SIZE) (length arrayBuffer)
            in chunkLoop arrayBuffer (offset + CHUNK_SIZE) (chunks @ [slice arrayBuffer offset end]))
      else chunks)"
  by pat_completeness auto
termination
  by (relation "measure (\<lambda>(b, off, cs). length b - off)") (auto simp: CHUNK_SIZE_def)

declare chunkLoop.simps [simp del]

text \<open>
  The promise of \<open>chunkFile\<close>: the FileReader either loads the file (\<open>loaded\<close>) and the
  promise resolves with the chunks, or fails and the promise is rejected.
\<close>

definition chunkFile :: "bool \<Rightarrow> File \<Rightarrow> js_error + bytes list" where
  "chunkFile loaded f = (if loaded then Inr (chunkLoop (content f) 0 []) else Inl ReadFailed)"

subsection \<open>sendFile\<close>

text \<open>
  The variables \<open>sendNextChunk\<close> closes over, the channel's \<open>bufferedAmount\<close>, and what the
  run has done so far: \<open>sent\<close> lists the arguments of \<open>dataChannel.send\<close> in call order,
  \<open>reported\<close> the \<open>sent\<close> and \<open>total\<close> fields of the \<open>onProgress\<close> calls (the \<open>percent\<close> field
  is a rounded floating-point quotient and is left out). The channel stays open during
  the run.
\<close>

record sender_state =
  chunks :: "bytes list"
  sentChunks :: nat
  sentBytes :: nat
  totalSize :: nat
  bufferedAmount :: nat
  sent :: "data list"
  reported :: "(nat \<times> nat) list"

text \<open>\<open>dataChannel.send(d)\<close>, where \<open>d\<close> adds \<open>n\<close> bytes to \<open>bufferedAmount\<close>.\<close>

definition send :: "data \<Rightarrow> nat \<Rightarrow> sender_state \<Rightarrow> sender_state" where
  "send d n s = s\<lparr>sent := sent s @ [d], bufferedAmount := bufferedAmount s + n\<rparr>"

text \<open>The \<open>while\<close> loop of \<open>sendNextChunk\<close>.\<close>

function sendLoop :: "sender_state \<Rightarrow> sender_state" where
  "sendLoop s =
     (if bufferedAmount s \<le> BUFFER_THRESHOLD \<and> sentChunks s < length (chunks s)
      then (let chunk = chunks s ! sentChunks s;
                s1 = send (Buf chunk) (length chunk) s;
                s2 = s1\<lparr>sentChunks := sentChunks s1 + 1,
                        sentBytes := sentBytes s1 + length chunk\<rparr>
            in sendLoop (s2\<lparr>reported := reported s2 @ [(sentBytes s2, totalSize s2)]\<rparr>))
      else s)"
  by pat_completeness auto
termination
  by (relation "measure (\<lambda>s. length (chunks s) - sentChunks s)") (auto simp: send_def)

declare sendLoop.simps [simp del]

text \<open>The string \<open>{"type":"file-end"}\<close> is 19 bytes long.\<close>

definition sendNextChunk :: "sender_state \<Rightarrow> sender_state" where
  "sendNextChunk s =
     (let s' = sendLoop s
      in if sentChunks s' \<ge> length (chunks s')
         then send (Str (JSON_stringify FileEnd)) 19 s'
         else s')"

text \<open>
  \<open>sendFile\<close> sends the metadata, awaits \<open>chunkFile\<close>, sets the threshold, registers
  \<open>sendNextChunk\<close> as \<open>onbufferedamountlow\<close> and calls it once. \<open>b\<close> is the value of
  \<open>dataChannel.bufferedAmount\<close> when that first call starts (the metadata may or may not
  have left the buffer while the file was read).
\<close>

definition sendFile :: "nat \<Rightarrow> bool \<Rightarrow> File \<Rightarrow> js_error + sender_state" where
  "sendFile b loaded f =
     (let metadata = FileMeta (name f) (file_size f)
                       (if type f = [] then ''application/octet-stream'' else type f)
      in case chunkFile loaded f of
           Inl e \<Rightarrow> Inl e
         | Inr cs \<Rightarrow>
             Inr (sendNextChunk
                   \<lparr>chunks = cs, sentChunks = 0, sentBytes = 0, totalSize = file_size f,
                    bufferedAmount = b, sent = [Str (JSON_stringify metadata)],
                    reported = []\<rparr>))"

text \<open>
  The transport has sent \<open>n\<close> buffered bytes. The browser lowers \<open>bufferedAmount\<close> and,
  when the amount was above \<open>bufferedAmountLowThreshold\<close> and no longer is, fires
  \<open>bufferedamountlow\<close>, whose handler is \<open>sendNextChunk\<close>.
\<close>

definition flushed :: "nat \<Rightarrow> sender_state \<Rightarrow> sender_state" where
  "flushed n s =
     (let s' = s\<lparr>bufferedAmount := bufferedAmount s - n\<rparr>
      in if bufferedAmount s > BUFFER_THRESHOLD \<and> bufferedAmount s' \<le> BUFFER_THRESHOLD
         then sendNextChunk s'
         else s')"

fun transport :: "nat list \<Rightarrow> sender_state \<Rightarrow> sender_state" where
  "transport [] s = s"
| "transport (n # ns) s = transport ns (flushed n s)"

text \<open>The frames on the wire after \<open>sendFile\<close> and the transport's flushes \<open>ns\<close>.\<close>

definition emitted :: "nat \<Rightarrow> File \<Rightarrow> nat list \<Rightarrow> data list" where
  "emitted b f ns =
     (case sendFile b True f of Inl e \<Rightarrow> [] | Inr s \<Rightarrow> sent (transport ns s))"

subsection \<open>createFileReceiver\<close>

text \<open>
  The variables \<open>handleMessage\<close> closes over; \<open>fileMetadata\<close> holds the name, size and
  mimeType of the stored \<open>file-meta\<close> message.
\<close>

record receiver_state =
  fileMetadata :: "(string \<times> nat \<times> string) option"
  receivedChunks :: "bytes list"
  receivedBytes :: nat

text \<open>
  The calls of the three callbacks; \<open>onProgress\<close> with its \<open>received\<close> and \<open>total\<close>,
  \<open>onComplete\<close> with the File built from the Blob of the received chunks.
\<close>

datatype callback =
    onMetadata string nat string
  | onProgress nat nat
  | onComplete File

definition createFileReceiver :: receiver_state where
  "createFileReceiver = \<lparr>fileMetadata = None, receivedChunks = [], receivedBytes = 0\<rparr>"

text \<open>
  The \<open>type\<close> option of the \<open>Blob\<close> and \<open>File\<close> constructors: a type with a character
  outside U+0020 to U+007E becomes the empty string, any other type is converted to
  ASCII lower case.
\<close>

definition printable :: "char \<Rightarrow> bool" where
  "printable c \<longleftrightarrow> 32 \<le> (of_char c :: nat) \<and> (of_char c :: nat) \<le> 126"

definition asciiLowercase :: "char \<Rightarrow> char" where
  "asciiLowercase c =
     (case map_of (zip ''ABCDEFGHIJKLMNOPQRSTUVWXYZ'' ''abcdefghijklmnopqrstuvwxyz'') c of
        Some l \<Rightarrow> l
      | None \<Rightarrow> c)"

definition normalizeType :: "string \<Rightarrow> string" where
  "normalizeType t = (if list_all printable t then map asciiLowercase t else [])"

text \<open>
  \<open>new Blob(parts, { type })\<close>, a Blob being its bytes and its type, and
  \<open>new File(blobs, name, { type })\<close>.
\<close>

definition new_Blob :: "bytes list \<Rightarrow> string \<Rightarrow> bytes \<times> string" where
  "new_Blob parts t = (concat parts, normalizeType t)"

definition new_File :: "(bytes \<times> string) list \<Rightarrow> string \<Rightarrow> string \<Rightarrow> File" where
  "new_File blobs n t = \<lparr>name = n, type = normalizeType t, content = concat (map fst blobs)\<rparr>"

fun handleParsed :: "message \<Rightarrow> receiver_state \<Rightarrow> js_error + (receiver_state \<times> callback list)" where
  "handleParsed JsonNull st = Inl TypeError"
| "handleParsed (FileMeta n sz mt) st =
     Inr (st\<lparr>fileMetadata := Some (n, sz, mt)\<rparr>, [onMetadata n sz mt])"
| "handleParsed FileEnd st =
     (case fileMetadata st of
        None \<Rightarrow> Inl TypeError
      | Some (n, sz, mt) \<Rightarrow>
          (let blob = new_Blob (receivedChunks st) mt;
               file = new_File [blob] n mt
           in Inr (st\<lparr>receivedChunks := [], receivedBytes := 0, fileMetadata := None\<rparr>,
                   [onComplete file])))"
| "handleParsed OtherJson st = Inr (st, [])"

fun handleMessage :: "data \<Rightarrow> receiver_state \<Rightarrow> js_error + (receiver_state \<times> callback list)" where
  "handleMessage (Str t) st =
     (case JSON_parse t of Inl e \<Rightarrow> Inl e | Inr m \<Rightarrow> handleParsed m st)"
| "handleMessage (Buf chunk) st =
     (let st' = st\<lparr>receivedChunks := receivedChunks st @ [chunk],
                   receivedBytes := receivedBytes st + length chunk\<rparr>
      in Inr (st', case fileMetadata st' of
                     Some (n, sz, mt) \<Rightarrow> [onProgress (receivedBytes st') sz]
                   | None \<Rightarrow> []))"

text \<open>
  The channel delivers the messages one event at a time. A handler that throws leaves
  the variables as they were and the next message is handled all the same. The trace
  pairs the state each message met with what handling it did.
\<close>

fun receive :: "data list \<Rightarrow> receiver_state \<Rightarrow> (receiver_state \<times> (js_error + callback list)) list" where
  "receive [] st = []"
| "receive (d # ds) st =
     (case handleMessage d st of
        Inl e \<Rightarrow> (st, Inl e) # receive ds st
      | Inr (st', cbs) \<Rightarrow> (st, Inr cbs) # receive ds st')"

text \<open>The completions of a trace: the state at the sentinel and the File handed over.\<close>

fun completions :: "(receiver_state \<times> (js_error + callback list)) list \<Rightarrow> (receiver_state \<times> File) list" where
  "completions [] = []"
| "completions ((st, Inr [onComplete f]) # tr) = (st, f) # completions tr"
| "completions (x # tr) = completions tr"

text \<open>The variables after the messages, and the exceptions thrown on the way.\<close>

fun final :: "data list \<Rightarrow> receiver_state \<Rightarrow> receiver_state" where
  "final [] st = st"
| "final (d # ds) st =
     (case handleMessage d st of Inl e \<Rightarrow> final ds st | Inr (st', cbs) \<Rightarrow> final ds st')"

fun thrown :: "(receiver_state \<times> (js_error + callback list)) list \<Rightarrow> js_error list" where
  "thrown [] = []"
| "thrown ((st, Inl e) # tr) = e # thrown tr"
| "thrown ((st, Inr cbs) # tr) = thrown tr"

text \<open>The callbacks called while the messages were handled, in call order.\<close>

fun callbacks :: "(receiver_state \<times> (js_error + callback list)) list \<Rightarrow> callback list" where
  "callbacks [] = []"
| "callbacks ((st, Inl e) # tr) = callbacks tr"
| "callbacks ((st, Inr cbs) # tr) = cbs @ callbacks tr"

section \<open>The signaling server (BE/server.js, and its copy BE/server_nocmt.js)\<close>

subsection \<open>Connections, rooms and messages\<close>

text \<open>
  A connection is the WebSocket object \<open>ws\<close> the server gets with a \<open>connection\<close> event;
  the objects are numbered in the order the server accepts them.
\<close>

type_synonym conn = nat

type_synonym code = string

datatype ready_state = CONNECTING | OPEN | CLOSING | CLOSED

text \<open>The strings \<open>'sender'\<close> and \<open>'receiver'\<close> that \<open>currentRole\<close> holds.\<close>

datatype role = Sender | Receiver

text \<open>The value of a room in the \<open>rooms\<close> Map: \<open>{ sender: ws, receiver: null }\<close>.\<close>

record room =
  sender :: conn
  receiver :: "conn option"

text \<open>
  A parsed message as the \<open>switch (message.type)\<close> sees it, with the fields the case reads.
  \<open>'p\<close> is the type of the opaque JSON values in those fields. The \<open>code\<close> of a
  \<open>join-room\<close> is the string it carries (a value that is not a string is no key of
  \<open>rooms\<close>, like a string that names no room). \<open>OtherType\<close> is every other value of
  \<open>message.type\<close>.
\<close>

datatype 'p request =
    CreateRoom
  | JoinRoom code
  | Offer 'p
  | Answer 'p
  | IceCandidate 'p
  | RelayFileMeta 'p 'p 'p
  | SessionEnded
  | OtherType

text \<open>
  What arrives with a \<open>message\<close> event: a text that \<open>JSON.parse\<close> rejects, the JSON text
  \<open>null\<close> (reading \<open>message.type\<close> of it throws), or a parsed message.
\<close>

datatype 'p incoming = InvalidJson | NullJson | Parsed "'p request"

text \<open>The objects the server passes to \<open>sendMessage\<close>.\<close>

datatype 'p notice =
    RoomCreated code
  | RoomJoined code
  | PeerJoined
  | ErrorMessage string
  | OfferMessage 'p
  | AnswerMessage 'p
  | IceCandidateMessage 'p
  | FileMetaMessage 'p 'p 'p
  | PeerDisconnected string
  | SessionEndedMessage string

text \<open>
  A handler that throws (an uncaught exception of the process), or the loop of
  \<open>generateUniqueCode\<close> that has not found a free code with the draws it was given.
\<close>

datatype failure = Throws js_error | Loops

text \<open>
  The state of the process: the \<open>rooms\<close> Map, the variables \<open>currentCode\<close> and
  \<open>currentRole\<close> of each connection's closure, each socket's \<open>readyState\<close>, the number of
  connections accepted so far, and the calls of \<open>ws.send\<close> in order (socket and object
  sent).
\<close>

record 'p server =
  rooms :: "code \<rightharpoonup> room"
  currentCode :: "conn \<Rightarrow> code option"
  currentRole :: "conn \<Rightarrow> role option"
  readyState :: "conn \<Rightarrow> ready_state"
  accepted :: nat
  outbox :: "(conn \<times> 'p notice) list"

definition startup :: "'p server" where
  "startup = \<lparr>rooms = Map.empty, currentCode = (\<lambda>ws. None), currentRole = (\<lambda>ws. None),
              readyState = (\<lambda>ws. CLOSED), accepted = 0, outbox = []\<rparr>"

subsection \<open>generateCode, generateUniqueCode, sendMessage\<close>

text \<open>\<open>Number.prototype.toString\<close> on a natural number: its decimal digits.\<close>

definition digit :: "nat \<Rightarrow> char" where
  "digit n = ''0123456789'' ! n"

function toString :: "nat \<Rightarrow> string" where
  "toString n = (if n < 10 then [digit n] else toString (n div 10) @ [digit (n mod 10)])"
  by pat_completeness auto
termination
  by (relation "measure (\<lambda>n. n)") auto

declare toString.simps [simp del]

text \<open>
  \<open>generateCode\<close>, given the integer \<open>d\<close> that \<open>Math.floor(1000 + Math.random() * 9000)\<close>
  has produced.
\<close>

definition generateCode :: "nat \<Rightarrow> code" where
  "generateCode d = toString d"

text \<open>
  The \<open>do ... while (rooms.has(code))\<close> loop, given the draws of its calls of
  \<open>generateCode\<close>; \<open>None\<close> when every draw given is taken.
\<close>

fun generateUniqueCode :: "(code \<rightharpoonup> room) \<Rightarrow> nat list \<Rightarrow> code option" where
  "generateUniqueCode rs [] = None"
| "generateUniqueCode rs (d # ds) =
     (let code = generateCode d
      in if rs code \<noteq> None then generateUniqueCode rs ds else Some code)"

definition sendMessage :: "conn \<Rightarrow> 'p notice \<Rightarrow> 'p server \<Rightarrow> 'p server" where
  "sendMessage ws message s =
     (if readyState s ws = OPEN then s\<lparr>outbox := outbox s @ [(ws, message)]\<rparr> else s)"

text \<open>The template \<open>${role}\<close>; \<open>null\<close> prints as \<open>null\<close>.\<close>

fun roleText :: "role option \<Rightarrow> string" where
  "roleText None = ''null''"
| "roleText (Some Sender) = ''sender''"
| "roleText (Some Receiver) = ''receiver''"

text \<open>
  The guard \<open>currentCode && rooms.has(currentCode)\<close> followed by \<open>rooms.get(currentCode)\<close>:
  \<open>null\<close> and the empty string are falsy.
\<close>

definition currentRoom :: "'p server \<Rightarrow> code option \<Rightarrow> room option" where
  "currentRoom s code =
     (case code of None \<Rightarrow> None | Some k \<Rightarrow> if k = [] then None else rooms s k)"

text \<open>\<open>role === 'sender' ? room.receiver : room.sender\<close>\<close>

definition otherPeer :: "role option \<Rightarrow> room \<Rightarrow> conn option" where
  "otherPeer r room = (if r = Some Sender then receiver room else Some (sender room))"

subsection \<open>handleDisconnect and the message handler\<close>

definition handleDisconnect :: "code option \<Rightarrow> role option \<Rightarrow> 'p server \<Rightarrow> 'p server" where
  "handleDisconnect code r s =
     (case currentRoom s code of
        None \<Rightarrow> s
      | Some room \<Rightarrow>
          (let s1 = (case otherPeer r room of
                       None \<Rightarrow> s
                     | Some p \<Rightarrow>
                         if readyState s p = OPEN
                         then sendMessage p
                                (PeerDisconnected (''The '' @ roleText r @ '' has disconnected'')) s
                         else s)
           in s1\<lparr>rooms := (rooms s1)(the code := None)\<rparr>))"

fun dispatch :: "conn \<Rightarrow> 'p request \<Rightarrow> nat list \<Rightarrow> 'p server \<Rightarrow> failure + 'p server" where
  "dispatch ws CreateRoom draws s =
     (case generateUniqueCode (rooms s) draws of
        None \<Rightarrow> Inl Loops
      | Some code \<Rightarrow>
          Inr (sendMessage ws (RoomCreated code)
                (s\<lparr>rooms := (rooms s)(code \<mapsto> \<lparr>sender = ws, receiver = None\<rparr>),
                   currentCode := (currentCode s)(ws := Some code),
                   currentRole := (currentRole s)(ws := Some Sender)\<rparr>)))"
| "dispatch ws (JoinRoom joinCode) draws s =
     (case rooms s joinCode of
        None \<Rightarrow> Inr (sendMessage ws (ErrorMessage ''Invalid code. No room found.'') s)
      | Some room \<Rightarrow>
          (case receiver room of
             Some r \<Rightarrow>
               Inr (sendMessage ws (ErrorMessage ''Room is full. Someone already joined.'') s)
           | None \<Rightarrow>
               Inr (sendMessage (sender room) PeerJoined
                     (sendMessage ws (RoomJoined joinCode)
                       (s\<lparr>rooms := (rooms s)(joinCode \<mapsto> room\<lparr>receiver := Some ws\<rparr>),
                          currentCode := (currentCode s)(ws := Some joinCode),
                          currentRole := (currentRole s)(ws := Some Receiver)\<rparr>)))))"
| "dispatch ws (Offer p) draws s =
     (case currentRoom s (currentCode s ws) of
        None \<Rightarrow> Inr s
      | Some offerRoom \<Rightarrow>
          (case receiver offerRoom of
             None \<Rightarrow> Inr s
           | Some r \<Rightarrow> Inr (sendMessage r (OfferMessage p) s)))"
| "dispatch ws (Answer p) draws s =
     (case currentRoom s (currentCode s ws) of
        None \<Rightarrow> Inr s
      | Some answerRoom \<Rightarrow> Inr (sendMessage (sender answerRoom) (AnswerMessage p) s))"
| "dispatch ws (IceCandidate p) draws s =
     (case currentRoom s (currentCode s ws) of
        None \<Rightarrow> Inr s
      | Some iceRoom \<Rightarrow>
          (case otherPeer (currentRole s ws) iceRoom of
             None \<Rightarrow> Inr s
           | Some targetPeer \<Rightarrow> Inr (sendMessage targetPeer (IceCandidateMessage p) s)))"
| "dispatch ws (RelayFileMeta fileName fileSize fileType) draws s =
     (case currentRoom s (currentCode s ws) of
        None \<Rightarrow> Inr s
      | Some metaRoom \<Rightarrow>
          (case receiver metaRoom of
             None \<Rightarrow> Inr s
           | Some r \<Rightarrow> Inr (sendMessage r (FileMetaMessage fileName fileSize fileType) s)))"
| "dispatch ws SessionEnded draws s =
     (case currentRoom s (currentCode s ws) of
        None \<Rightarrow> Inr s
      | Some sessionRoom \<Rightarrow>
          (case otherPeer (currentRole s ws) sessionRoom of
             None \<Rightarrow> Inr s
           | Some p \<Rightarrow>
               if readyState s p = OPEN
               then Inr (sendMessage p
                          (SessionEndedMessage
                            (''The '' @ roleText (currentRole s ws) @ '' has ended the session'')) s)
               else Inr s))"
| "dispatch ws OtherType draws s = Inr s"

text \<open>
  The \<open>message\<close> handler of connection \<open>ws\<close>; \<open>draws\<close> are the draws a \<open>create-room\<close>
  would use.
\<close>

fun onMessage :: "conn \<Rightarrow> 'p incoming \<Rightarrow> nat list \<Rightarrow> 'p server \<Rightarrow> failure + 'p server" where
  "onMessage ws InvalidJson draws s =
     Inr (sendMessage ws (ErrorMessage ''Invalid message format'') s)"
| "onMessage ws NullJson draws s = Inl (Throws TypeError)"
| "onMessage ws (Parsed message) draws s = dispatch ws message draws s"

text \<open>
  BE/server_nocmt.js is the same handler without the \<open>session-ended\<close> case: there the
  message falls to \<open>default\<close>.
\<close>

fun nocmt :: "'p incoming \<Rightarrow> 'p incoming" where
  "nocmt (Parsed SessionEnded) = Parsed OtherType"
| "nocmt d = d"

definition onMessage_nocmt :: "conn \<Rightarrow> 'p incoming \<Rightarrow> nat list \<Rightarrow> 'p server \<Rightarrow> failure + 'p server" where
  "onMessage_nocmt ws d draws s = onMessage ws (nocmt d) draws s"

subsection \<open>The events of the process\<close>

text \<open>
  \<open>Connection\<close>: the server accepts a socket and runs the \<open>connection\<close> handler.
  \<open>Message\<close>: a socket's \<open>message\<close> event. \<open>Closing\<close>: a socket starts its closing
  handshake and is no longer \<open>OPEN\<close>. \<open>Close\<close>: a socket's \<open>close\<close> event, at which its
  \<open>readyState\<close> is \<open>CLOSED\<close>. \<open>SocketError\<close>: a socket's \<open>error\<close> event, which is logged.
\<close>

datatype 'p event =
    Connection
  | Message conn "'p incoming" "nat list"
  | Closing conn
  | Close conn
  | SocketError conn

fun handle :: "'p event \<Rightarrow> 'p server \<Rightarrow> failure + 'p server" where
  "handle Connection s =
     Inr (s\<lparr>currentCode := (currentCode s)(accepted s := None),
            currentRole := (currentRole s)(accepted s := None),
            readyState := (readyState s)(accepted s := OPEN),
            accepted := Suc (accepted s)\<rparr>)"
| "handle (Message ws d draws) s = onMessage ws d draws s"
| "handle (Closing ws) s = Inr (s\<lparr>readyState := (readyState s)(ws := CLOSING)\<rparr>)"
| "handle (Close ws) s =
     Inr (handleDisconnect (currentCode s ws) (currentRole s ws)
           (s\<lparr>readyState := (readyState s)(ws := CLOSED)\<rparr>))"
| "handle (SocketError ws) s = Inr s"

fun run :: "'p event list \<Rightarrow> 'p server \<Rightarrow> failure + 'p server" where
  "run [] s = Inr s"
| "run (ev # evs) s = (case handle ev s of Inl e \<Rightarrow> Inl e | Inr s' \<Rightarrow> run evs s')"

text \<open>
  The states the process can be in: those that some sequence of events leads to from
  startup. The order of the events is not restricted, so every real run is among them.
\<close>

inductive reachable :: "'p server \<Rightarrow> bool" where
  start: "reachable startup"
| step: "reachable s \<Longrightarrow> handle ev s = Inr s' \<Longrightarrow> reachable s'"

text \<open>The join attempts of the connections \<open>wss\<close> on one code, one after the other.\<close>

fun joins :: "conn list \<Rightarrow> code \<Rightarrow> 'p server \<Rightarrow> failure + 'p server" where
  "joins [] k s = Inr s"
| "joins (ws # wss) k s =
     (case onMessage ws (Parsed (JoinRoom k)) [] s of Inl e \<Rightarrow> Inl e | Inr s' \<Rightarrow> joins wss k s')"

text \<open>
  The calls of \<open>ws.send\<close> made by a run from startup, and the \<open>currentCode\<close> and
  \<open>currentRole\<close> of a connection after it.
\<close>

definition sends :: "'p event list \<Rightarrow> (conn \<times> 'p notice) list option" where
  "sends evs = (case run evs startup of Inl e \<Rightarrow> None | Inr s \<Rightarrow> Some (outbox s))"

definition binding :: "'p event list \<Rightarrow> conn \<Rightarrow> (code option \<times> role option) option" where
  "binding evs ws =
     (case run evs startup of Inl e \<Rightarrow> None | Inr s \<Rightarrow> Some (currentCode s ws, currentRole s ws))"

text \<open>The room a code names after a run from startup, if any.\<close>

definition registry :: "'p event list \<Rightarrow> code \<Rightarrow> room option option" where
  "registry evs k = (case run evs startup of Inl e \<Rightarrow> None | Inr s \<Rightarrow> Some (rooms s k))"

text \<open>The same run on BE/server_nocmt.js, whose message handler is \<open>onMessage_nocmt\<close>.\<close>

fun nocmt_event :: "'p event \<Rightarrow> 'p event" where
  "nocmt_event (Message ws d draws) = Message ws (nocmt d) draws"
| "nocmt_event ev = ev"

definition sends_nocmt :: "'p event list \<Rightarrow> (conn \<times> 'p notice) list option" where
  "sends_nocmt evs = sends (map nocmt_event evs)"

definition registry_nocmt :: "'p event list \<Rightarrow> code \<Rightarrow> room option option" where
  "registry_nocmt evs k = registry (map nocmt_event evs) k"

section \<open>Properties of the chunked transfer\<close>

subsection \<open>chunkFile partitions the file\<close>


lemma slice_chunk:
  "offset < length buf \<Longrightarrow>
   slice buf offset (min (offset + CHUNK_SIZE) (length buf)) = take CHUNK_SIZE (drop offset buf)"
  by (auto simp: slice_def min_def)

lemma chunkLoop_step:
  "offset < length buf \<Longrightarrow>
   chunkLoop buf offset acc =
     chunkLoop buf (offset + CHUNK_SIZE) (acc @ [take CHUNK_SIZE (drop offset buf)])"
  by (subst chunkLoop.simps) (simp add: Let_def slice_chunk)

lemma chunkLoop_stop:
  "\<not> offset < length buf \<Longrightarrow> chunkLoop buf offset acc = acc"
  by (subst chunkLoop.simps) simp

lemma chunkLoop_concat:
  "concat (chunkLoop buf offset acc) = concat acc @ drop offset buf"
proof (induction buf offset acc rule: chunkLoop.induct)
  case (1 buf offset acc)
  show ?case
  proof (cases "offset < length buf")
    case True
    have "take CHUNK_SIZE (drop offset buf) @ drop (offset + CHUNK_SIZE) buf = drop offset buf"
      by (metis add.commute append_take_drop_id drop_drop)
    with True 1 show ?thesis
      by (simp add: chunkLoop_step slice_chunk)
  next
    case False
    then show ?thesis by (simp add: chunkLoop_stop)
  qed
qed









subsection \<open>The frames sendFile emits\<close>

lemma sendLoop_step:
  "bufferedAmount s \<le> BUFFER_THRESHOLD \<Longrightarrow> sentChunks s < length (chunks s) \<Longrightarrow>
   sendLoop s =
     sendLoop (s\<lparr>sent := sent s @ [Buf (chunks s ! sentChunks s)],
                 bufferedAmount := bufferedAmount s + length (chunks s ! sentChunks s),
                 sentChunks := Suc (sentChunks s),
                 sentBytes := sentBytes s + length (chunks s ! sentChunks s),
                 reported := reported s @ [(sentBytes s + length (chunks s ! sentChunks s), totalSize s)]\<rparr>)"
  by (subst sendLoop.simps) (simp add: Let_def send_def)

lemma sendLoop_stop:
  "\<not> (bufferedAmount s \<le> BUFFER_THRESHOLD \<and> sentChunks s < length (chunks s)) \<Longrightarrow> sendLoop s = s"
  by (subst sendLoop.simps) auto

lemma sendLoop_chunks: "chunks (sendLoop s) = chunks s"
proof (induction s rule: sendLoop.induct)
  case (1 s)
  show ?case
  proof (cases "bufferedAmount s \<le> BUFFER_THRESHOLD \<and> sentChunks s < length (chunks s)")
    case True
    then show ?thesis
      using "1.IH"[OF True refl refl refl] by (subst sendLoop.simps) (simp add: Let_def send_def)
  next
    case False
    then show ?thesis by (simp add: sendLoop_stop)
  qed
qed

lemma sendLoop_mono: "sentChunks s \<le> sentChunks (sendLoop s)"
proof (induction s rule: sendLoop.induct)
  case (1 s)
  show ?case
  proof (cases "bufferedAmount s \<le> BUFFER_THRESHOLD \<and> sentChunks s < length (chunks s)")
    case True
    then show ?thesis
      using "1.IH"[OF True refl refl refl] by (subst sendLoop.simps) (simp add: Let_def send_def)
  next
    case False
    then show ?thesis by (simp add: sendLoop_stop)
  qed
qed

lemma sendLoop_progress:
  "bufferedAmount s \<le> BUFFER_THRESHOLD \<Longrightarrow> sentChunks s < length (chunks s) \<Longrightarrow>
   sentChunks s < sentChunks (sendLoop s)"
proof -
  assume a: "bufferedAmount s \<le> BUFFER_THRESHOLD" "sentChunks s < length (chunks s)"
  let ?s = "s\<lparr>sent := sent s @ [Buf (chunks s ! sentChunks s)],
                 bufferedAmount := bufferedAmount s + length (chunks s ! sentChunks s),
                 sentChunks := Suc (sentChunks s),
                 sentBytes := sentBytes s + length (chunks s ! sentChunks s),
                 reported := reported s @ [(sentBytes s + length (chunks s ! sentChunks s), totalSize s)]\<rparr>"
  have "sentChunks ?s \<le> sentChunks (sendLoop ?s)" by (rule sendLoop_mono)
  then show ?thesis using sendLoop_step[OF a] by simp
qed

lemma sendLoop_bound:
  "sentChunks s \<le> length (chunks s) \<Longrightarrow> sentChunks (sendLoop s) \<le> length (chunks s)"
proof (induction s rule: sendLoop.induct)
  case (1 s)
  show ?case
  proof (cases "bufferedAmount s \<le> BUFFER_THRESHOLD \<and> sentChunks s < length (chunks s)")
    case True
    then show ?thesis
      using "1.IH"[OF True refl refl refl] by (subst sendLoop.simps) (simp add: Let_def send_def)
  next
    case False
    then show ?thesis using "1.prems" by (simp add: sendLoop_stop)
  qed
qed

lemma sendLoop_paused:
  "sentChunks (sendLoop s) < length (chunks s) \<Longrightarrow> BUFFER_THRESHOLD < bufferedAmount (sendLoop s)"
proof (induction s rule: sendLoop.induct)
  case (1 s)
  show ?case
  proof (cases "bufferedAmount s \<le> BUFFER_THRESHOLD \<and> sentChunks s < length (chunks s)")
    case True
    then show ?thesis
      using "1.IH"[OF True refl refl refl] "1.prems"
      by (subst sendLoop.simps, subst (asm) sendLoop.simps) (simp add: Let_def send_def)
  next
    case False
    then show ?thesis using "1.prems" by (auto simp: sendLoop_stop)
  qed
qed

lemma sendLoop_sent:
  "sent (sendLoop s) =
     sent s @ map Buf (take (sentChunks (sendLoop s) - sentChunks s) (drop (sentChunks s) (chunks s)))"
proof (induction s rule: sendLoop.induct)
  case (1 s)
  show ?case
  proof (cases "bufferedAmount s \<le> BUFFER_THRESHOLD \<and> sentChunks s < length (chunks s)")
    case True
    let ?s = "s\<lparr>sent := sent s @ [Buf (chunks s ! sentChunks s)],
                 bufferedAmount := bufferedAmount s + length (chunks s ! sentChunks s),
                 sentChunks := Suc (sentChunks s),
                 sentBytes := sentBytes s + length (chunks s ! sentChunks s),
                 reported := reported s @ [(sentBytes s + length (chunks s ! sentChunks s), totalSize s)]\<rparr>"
    have eq: "sendLoop s = sendLoop ?s" using True by (simp add: sendLoop_step)
    have ih: "sent (sendLoop ?s) =
        sent ?s @ map Buf (take (sentChunks (sendLoop ?s) - sentChunks ?s) (drop (sentChunks ?s) (chunks ?s)))"
      using "1.IH"[OF True refl refl refl] by (simp add: send_def)
    have lt: "Suc (sentChunks s) \<le> sentChunks (sendLoop ?s)"
      using sendLoop_mono[of ?s] by simp
    have "drop (sentChunks s) (chunks s) = chunks s ! sentChunks s # drop (Suc (sentChunks s)) (chunks s)"
      using True by (simp add: Cons_nth_drop_Suc)
    moreover have "sentChunks (sendLoop ?s) - sentChunks s = Suc (sentChunks (sendLoop ?s) - Suc (sentChunks s))"
      using lt by simp
    ultimately have "take (sentChunks (sendLoop ?s) - sentChunks s) (drop (sentChunks s) (chunks s)) =
        chunks s ! sentChunks s # take (sentChunks (sendLoop ?s) - Suc (sentChunks s)) (drop (Suc (sentChunks s)) (chunks s))"
      by simp
    then show ?thesis unfolding eq using ih by simp
  next
    case False
    then show ?thesis by (simp add: sendLoop_stop)
  qed
qed

text \<open>The shape of the frames sent so far: the metadata, a prefix of the chunks, sentinels.\<close>

lemma sendNextChunk_shape:
  assumes "sent s = pre # map Buf (take (sentChunks s) (chunks s)) @ replicate j (Str (Json FileEnd))"
    and "0 < j \<longrightarrow> length (chunks s) \<le> sentChunks s"
    and "sentChunks s \<le> length (chunks s)"
  shows "\<exists>j'. sent (sendNextChunk s) =
            pre # map Buf (take (sentChunks (sendNextChunk s)) (chunks s)) @ replicate j' (Str (Json FileEnd))
          \<and> (0 < j' \<longrightarrow> length (chunks s) \<le> sentChunks (sendNextChunk s))
          \<and> (sentChunks (sendNextChunk s) = length (chunks s) \<longrightarrow> 0 < j')"
proof (cases "sentChunks s < length (chunks s)")
  case True
  then have j: "j = 0" using assms(2) by auto
  let ?k = "sentChunks s" and ?k' = "sentChunks (sendLoop s)"
  have "take ?k (chunks s) @ take (?k' - ?k) (drop ?k (chunks s)) = take ?k' (chunks s)"
    using sendLoop_mono[of s] by (metis le_add_diff_inverse take_add)
  then have shape: "sent (sendLoop s) = pre # map Buf (take ?k' (chunks s))"
    using sendLoop_sent[of s] assms(1) j by (simp flip: map_append)
  show ?thesis
  proof (cases "length (chunks s) \<le> ?k'")
    case True
    then have "sent (sendNextChunk s) = pre # map Buf (take ?k' (chunks s)) @ replicate 1 (Str (Json FileEnd))"
      and "sentChunks (sendNextChunk s) = ?k'"
      using shape by (simp_all add: sendNextChunk_def Let_def sendLoop_chunks send_def JSON_stringify_def)
    then show ?thesis using True by (metis zero_less_one)
  next
    case False
    then have "sent (sendNextChunk s) = pre # map Buf (take ?k' (chunks s)) @ replicate 0 (Str (Json FileEnd))"
      and "sentChunks (sendNextChunk s) = ?k'"
      using shape by (simp_all add: sendNextChunk_def Let_def sendLoop_chunks)
    then show ?thesis using False by (metis less_irrefl_nat not_le_imp_less)
  qed
next
  case False
  then have stop: "sendLoop s = s" by (simp add: sendLoop_stop)
  have "sent (sendNextChunk s) =
      pre # map Buf (take (sentChunks s) (chunks s)) @ replicate (Suc j) (Str (Json FileEnd))"
    and "sentChunks (sendNextChunk s) = sentChunks s"
    using False assms(1) stop
    by (simp_all add: sendNextChunk_def Let_def send_def JSON_stringify_def replicate_append_same)
  then show ?thesis using False by (metis not_le_imp_less zero_less_Suc)
qed

lemma sendNextChunk_chunks: "chunks (sendNextChunk s) = chunks s"
  by (simp add: sendNextChunk_def Let_def sendLoop_chunks send_def)

lemma sendNextChunk_bound:
  "sentChunks s \<le> length (chunks s) \<Longrightarrow> sentChunks (sendNextChunk s) \<le> length (chunks s)"
  by (simp add: sendNextChunk_def Let_def sendLoop_bound send_def)

lemma sendNextChunk_paused:
  "sentChunks (sendNextChunk s) < length (chunks s) \<Longrightarrow>
   BUFFER_THRESHOLD < bufferedAmount (sendNextChunk s)"
  using sendLoop_paused[of s]
  by (auto simp: sendNextChunk_def Let_def sendLoop_chunks send_def split: if_splits)

lemma sendNextChunk_progress:
  "bufferedAmount s \<le> BUFFER_THRESHOLD \<Longrightarrow> sentChunks s < length (chunks s) \<Longrightarrow>
   sentChunks s < sentChunks (sendNextChunk s)"
  using sendLoop_progress[of s]
  by (auto simp: sendNextChunk_def Let_def send_def)

lemma flushed_chunks: "chunks (flushed n s) = chunks s"
  by (simp add: flushed_def Let_def sendNextChunk_chunks)

lemma flushed_bound:
  "sentChunks s \<le> length (chunks s) \<Longrightarrow> sentChunks (flushed n s) \<le> length (chunks s)"
  using sendNextChunk_bound[of "s\<lparr>bufferedAmount := bufferedAmount s - n\<rparr>"]
  by (simp add: flushed_def Let_def)

lemma flushed_cases:
  "flushed n s = sendNextChunk (s\<lparr>bufferedAmount := bufferedAmount s - n\<rparr>)
   \<or> flushed n s = s\<lparr>bufferedAmount := bufferedAmount s - n\<rparr>"
  by (simp add: flushed_def Let_def)

lemma flushed_shape:
  assumes "sent s = pre # map Buf (take (sentChunks s) (chunks s)) @ replicate j (Str (Json FileEnd))"
    and "0 < j \<longrightarrow> length (chunks s) \<le> sentChunks s"
    and "sentChunks s \<le> length (chunks s)"
    and "sentChunks s = length (chunks s) \<longrightarrow> 0 < j"
  shows "\<exists>j'. sent (flushed n s) =
            pre # map Buf (take (sentChunks (flushed n s)) (chunks s)) @ replicate j' (Str (Json FileEnd))
          \<and> (0 < j' \<longrightarrow> length (chunks s) \<le> sentChunks (flushed n s))
          \<and> (sentChunks (flushed n s) = length (chunks s) \<longrightarrow> 0 < j')"
proof -
  let ?s = "s\<lparr>bufferedAmount := bufferedAmount s - n\<rparr>"
  have r: "sent ?s = sent s" "sentChunks ?s = sentChunks s" "chunks ?s = chunks s" by simp_all
  from flushed_cases[of n s] show ?thesis
  proof
    assume eq: "flushed n s = sendNextChunk ?s"
    have 1: "sent ?s = pre # map Buf (take (sentChunks ?s) (chunks ?s)) @ replicate j (Str (Json FileEnd))"
      unfolding r by (rule assms(1))
    have 2: "0 < j \<longrightarrow> length (chunks ?s) \<le> sentChunks ?s"
      unfolding r by (rule assms(2))
    have 3: "sentChunks ?s \<le> length (chunks ?s)"
      unfolding r by (rule assms(3))
    show ?thesis
      unfolding eq using sendNextChunk_shape[OF 1 2 3] unfolding r .
  next
    assume eq: "flushed n s = ?s"
    have "sent (flushed n s) =
            pre # map Buf (take (sentChunks (flushed n s)) (chunks s)) @ replicate j (Str (Json FileEnd))
          \<and> (0 < j \<longrightarrow> length (chunks s) \<le> sentChunks (flushed n s))
          \<and> (sentChunks (flushed n s) = length (chunks s) \<longrightarrow> 0 < j)"
      unfolding eq r using assms(1,2,4) by blast
    then show ?thesis by (rule exI)
  qed
qed

lemma transport_shape:
  assumes "sent s = pre # map Buf (take (sentChunks s) (chunks s)) @ replicate j (Str (Json FileEnd))"
    and "0 < j \<longrightarrow> length (chunks s) \<le> sentChunks s"
    and "sentChunks s \<le> length (chunks s)"
    and "sentChunks s = length (chunks s) \<longrightarrow> 0 < j"
  shows "\<exists>k j'. sent (transport ns s) = pre # map Buf (take k (chunks s)) @ replicate j' (Str (Json FileEnd))
          \<and> (0 < j' \<longrightarrow> length (chunks s) \<le> k)"
  using assms
proof (induction ns arbitrary: s j)
  case Nil
  have "sent (transport [] s) = pre # map Buf (take (sentChunks s) (chunks s)) @ replicate j (Str (Json FileEnd))
          \<and> (0 < j \<longrightarrow> length (chunks s) \<le> sentChunks s)"
    using Nil.prems(1,2) by (simp only: transport.simps)
  then show ?case by blast
next
  case (Cons n ns)
  obtain j' where j': "sent (flushed n s) =
            pre # map Buf (take (sentChunks (flushed n s)) (chunks s)) @ replicate j' (Str (Json FileEnd))"
          "0 < j' \<longrightarrow> length (chunks s) \<le> sentChunks (flushed n s)"
          "sentChunks (flushed n s) = length (chunks s) \<longrightarrow> 0 < j'"
    using flushed_shape[OF Cons.prems] by blast
  have 1: "sent (flushed n s) =
      pre # map Buf (take (sentChunks (flushed n s)) (chunks (flushed n s))) @ replicate j' (Str (Json FileEnd))"
    using j'(1) by (simp only: flushed_chunks)
  have 2: "0 < j' \<longrightarrow> length (chunks (flushed n s)) \<le> sentChunks (flushed n s)"
    using j'(2) by (simp only: flushed_chunks)
  have 3: "sentChunks (flushed n s) \<le> length (chunks (flushed n s))"
    using flushed_bound[OF Cons.prems(3), of n] by (simp only: flushed_chunks)
  have 4: "sentChunks (flushed n s) = length (chunks (flushed n s)) \<longrightarrow> 0 < j'"
    using j'(3) by (simp only: flushed_chunks)
  show ?case
    using Cons.IH[OF 1 2 3 4] by (simp only: flushed_chunks transport.simps)
qed


lemma emitted_eq:
  "emitted b f ns =
     sent (transport ns (sendNextChunk
        \<lparr>chunks = chunkLoop (content f) 0 [], sentChunks = 0, sentBytes = 0,
         totalSize = file_size f, bufferedAmount = b,
         sent = [Str (Json (FileMeta (name f) (file_size f)
                  (if type f = [] then ''application/octet-stream'' else type f)))],
         reported = []\<rparr>))"
  by (simp add: emitted_def sendFile_def chunkFile_def Let_def JSON_stringify_def)

lemma first_call_shape:
  assumes "sentChunks s0 = 0" and "sent s0 = [pre]"
  shows "\<exists>j. sent (sendNextChunk s0) =
            pre # map Buf (take (sentChunks (sendNextChunk s0)) (chunks (sendNextChunk s0)))
              @ replicate j (Str (Json FileEnd))
          \<and> (0 < j \<longrightarrow> length (chunks (sendNextChunk s0)) \<le> sentChunks (sendNextChunk s0))
          \<and> (sentChunks (sendNextChunk s0) = length (chunks (sendNextChunk s0)) \<longrightarrow> 0 < j)"
proof -
  have 1: "sent s0 = pre # map Buf (take (sentChunks s0) (chunks s0)) @ replicate 0 (Str (Json FileEnd))"
    by (simp add: assms)
  have 2: "0 < (0::nat) \<longrightarrow> length (chunks s0) \<le> sentChunks s0" by simp
  have 3: "sentChunks s0 \<le> length (chunks s0)" by (simp add: assms)
  show ?thesis
    using sendNextChunk_shape[OF 1 2 3] by (simp only: sendNextChunk_chunks)
qed

text \<open>Whatever the transport does, the frames are the metadata, chunks in order, sentinels.\<close>

lemma emitted_shape:
  "\<exists>k j. emitted b f ns =
      Str (Json (FileMeta (name f) (file_size f)
                  (if type f = [] then ''application/octet-stream'' else type f)))
      # map Buf (take k (chunkLoop (content f) 0 [])) @ replicate j (Str (Json FileEnd))
    \<and> (0 < j \<longrightarrow> length (chunkLoop (content f) 0 []) \<le> k)"
proof -
  let ?pre = "Str (Json (FileMeta (name f) (file_size f)
                  (if type f = [] then ''application/octet-stream'' else type f)))"
  let ?init = "\<lparr>chunks = chunkLoop (content f) 0 [], sentChunks = 0, sentBytes = 0,
         totalSize = file_size f, bufferedAmount = b, sent = [?pre], reported = []\<rparr>"
  let ?s = "sendNextChunk ?init"
  obtain j where j: "sent ?s = ?pre # map Buf (take (sentChunks ?s) (chunks ?s)) @ replicate j (Str (Json FileEnd))"
     "0 < j \<longrightarrow> length (chunks ?s) \<le> sentChunks ?s"
     "sentChunks ?s = length (chunks ?s) \<longrightarrow> 0 < j"
    using first_call_shape[of ?init ?pre] by auto
  have bd: "sentChunks ?s \<le> length (chunks ?s)"
    using sendNextChunk_bound[of ?init] by (simp add: sendNextChunk_chunks)
  have c: "chunks ?s = chunkLoop (content f) 0 []"
    by (simp add: sendNextChunk_chunks)
  show ?thesis
    using transport_shape[OF j(1) j(2) bd j(3), of ns] unfolding c emitted_eq .
qed

lemma emitted_complete:
  assumes "Str (Json FileEnd) \<in> set (emitted b f ns)"
  shows "\<exists>j. emitted b f ns =
      Str (Json (FileMeta (name f) (file_size f)
                  (if type f = [] then ''application/octet-stream'' else type f)))
      # map Buf (chunkLoop (content f) 0 []) @ replicate (Suc j) (Str (Json FileEnd))"
proof -
  obtain k j where kj: "emitted b f ns =
      Str (Json (FileMeta (name f) (file_size f)
                  (if type f = [] then ''application/octet-stream'' else type f)))
      # map Buf (take k (chunkLoop (content f) 0 [])) @ replicate j (Str (Json FileEnd))"
    "0 < j \<longrightarrow> length (chunkLoop (content f) 0 []) \<le> k"
    using emitted_shape[of b f ns] by blast
  have "j \<noteq> 0"
  proof
    assume "j = 0"
    then have "Str (Json FileEnd) \<notin> set (emitted b f ns)"
      unfolding kj(1) by auto
    with assms show False by simp
  qed
  then obtain j' where j': "j = Suc j'" by (cases j) auto
  then have "take k (chunkLoop (content f) 0 []) = chunkLoop (content f) 0 []"
    using kj(2) by simp
  then show ?thesis using kj(1) j' by auto
qed


text \<open>A transport that keeps flushing its buffer brings the run to its sentinel.\<close>

lemma sendNextChunk_sentinel:
  "length (chunks s) \<le> sentChunks (sendNextChunk s) \<Longrightarrow>
   Str (Json FileEnd) \<in> set (sent (sendNextChunk s))"
  by (auto simp: sendNextChunk_def Let_def sendLoop_chunks send_def JSON_stringify_def
           split: if_splits)

lemma transport_finishes:
  assumes "sentChunks s < length (chunks s) \<Longrightarrow> BUFFER_THRESHOLD < bufferedAmount s"
    and "sentChunks s \<le> length (chunks s)"
    and "length (chunks s) \<le> sentChunks s \<Longrightarrow> Str (Json FileEnd) \<in> set (sent s)"
  shows "\<exists>ns. Str (Json FileEnd) \<in> set (sent (transport ns s))"
  using assms
proof (induction "length (chunks s) - sentChunks s" arbitrary: s rule: less_induct)
  case less
  show ?case
  proof (cases "length (chunks s) \<le> sentChunks s")
    case True
    then have "Str (Json FileEnd) \<in> set (sent (transport [] s))"
      using less.prems(3) by simp
    then show ?thesis by blast
  next
    case False
    let ?n = "bufferedAmount s"
    let ?z = "s\<lparr>bufferedAmount := 0\<rparr>"
    let ?t = "sendNextChunk ?z"
    have lt: "sentChunks s < length (chunks s)" using False by simp
    have big: "BUFFER_THRESHOLD < bufferedAmount s" using less.prems(1)[OF lt] .
    have eq: "flushed ?n s = ?t"
      using big by (simp add: flushed_def Let_def)
    have prog: "sentChunks s < sentChunks ?t"
      using sendNextChunk_progress[of ?z] lt by simp
    have ch: "chunks ?t = chunks s" by (simp add: sendNextChunk_chunks)
    have bd: "sentChunks ?t \<le> length (chunks ?t)"
      using sendNextChunk_bound[of ?z] less.prems(2) by (simp add: sendNextChunk_chunks)
    have pa: "BUFFER_THRESHOLD < bufferedAmount ?t" if "sentChunks ?t < length (chunks ?t)"
      using sendNextChunk_paused[of ?z] that by (simp add: sendNextChunk_chunks)
    have fin: "Str (Json FileEnd) \<in> set (sent ?t)" if "length (chunks ?t) \<le> sentChunks ?t"
      using sendNextChunk_sentinel[of ?z] that by (simp add: sendNextChunk_chunks)
    have dec: "length (chunks ?t) - sentChunks ?t < length (chunks s) - sentChunks s"
      using prog lt ch by simp
    obtain ns where "Str (Json FileEnd) \<in> set (sent (transport ns ?t))"
      using less.hyps[OF dec pa bd fin] by blast
    then have "Str (Json FileEnd) \<in> set (sent (transport (?n # ns) s))"
      by (simp add: eq)
    then show ?thesis by blast
  qed
qed

lemma emitted_finishes: "\<exists>ns. Str (Json FileEnd) \<in> set (emitted b f ns)"
proof -
  let ?pre = "Str (Json (FileMeta (name f) (file_size f)
                  (if type f = [] then ''application/octet-stream'' else type f)))"
  let ?init = "\<lparr>chunks = chunkLoop (content f) 0 [], sentChunks = 0, sentBytes = 0,
         totalSize = file_size f, bufferedAmount = b, sent = [?pre], reported = []\<rparr>"
  let ?t = "sendNextChunk ?init"
  have bd: "sentChunks ?t \<le> length (chunks ?t)"
    using sendNextChunk_bound[of ?init] by (simp add: sendNextChunk_chunks)
  have pa: "BUFFER_THRESHOLD < bufferedAmount ?t" if "sentChunks ?t < length (chunks ?t)"
    using sendNextChunk_paused[of ?init] that by (simp add: sendNextChunk_chunks)
  have fin: "Str (Json FileEnd) \<in> set (sent ?t)" if "length (chunks ?t) \<le> sentChunks ?t"
    using sendNextChunk_sentinel[of ?init] that by (simp add: sendNextChunk_chunks)
  show ?thesis
    using transport_finishes[OF pa bd fin] unfolding emitted_eq by blast
qed

subsection \<open>What the receiver does with them\<close>

lemma receive_append: "receive (xs @ ys) st = receive xs st @ receive ys (final xs st)"
  by (induction xs arbitrary: st) (auto split: sum.splits)

lemma completions_append: "completions (a @ b) = completions a @ completions b"
  by (induction a rule: completions.induct) auto

lemma thrown_append: "thrown (a @ b) = thrown a @ thrown b"
  by (induction a rule: thrown.induct) auto

lemma final_append: "final (xs @ ys) st = final ys (final xs st)"
  by (induction xs arbitrary: st) (auto split: sum.splits)

lemma final_chunks:
  "final (map Buf cs) st =
     st\<lparr>receivedChunks := receivedChunks st @ cs,
        receivedBytes := receivedBytes st + length (concat cs)\<rparr>"
  by (induction cs arbitrary: st) (simp_all add: Let_def)

lemma completions_chunks: "completions (receive (map Buf cs) st) = []"
  by (induction cs arbitrary: st) (simp_all add: Let_def split: option.splits)

lemma thrown_chunks: "thrown (receive (map Buf cs) st) = []"
  by (induction cs arbitrary: st) (simp_all add: Let_def)

lemma completions_idle_sentinels:
  "fileMetadata st = None \<Longrightarrow>
   completions (receive (replicate j (Str (Json FileEnd))) st) = []"
  by (induction j) simp_all

subsection \<open>The round trip, the sentinel, and the receiver out of protocol order\<close>

text \<open>
  A type that is already normalised, as the \<open>type\<close> of a browser File is, stays as it is.
\<close>

lemma asciiLowercase_idem: "asciiLowercase (asciiLowercase c) = asciiLowercase c"
  by (simp add: asciiLowercase_def)

lemma printable_asciiLowercase: "printable c \<Longrightarrow> printable (asciiLowercase c)"
  by (auto simp: asciiLowercase_def printable_def)

lemma normalizeType_idem: "normalizeType (normalizeType t) = normalizeType t"
  by (auto simp: normalizeType_def list_all_iff asciiLowercase_idem printable_asciiLowercase)

lemma normalizeType_default:
  "normalizeType ''application/octet-stream'' = ''application/octet-stream''"
  by (simp add: normalizeType_def printable_def asciiLowercase_def)

lemma receive_transfer:
  "completions (receive (Str (Json (FileMeta n sz mt)) # map Buf cs
                          @ replicate (Suc j) (Str (Json FileEnd))) createFileReceiver) =
     [(\<lparr>fileMetadata = Some (n, sz, mt), receivedChunks = cs,
        receivedBytes = length (concat cs)\<rparr>,
       \<lparr>name = n, type = normalizeType mt, content = concat cs\<rparr>)]"
  by (simp add: receive_append completions_append completions_chunks final_chunks
        completions_idle_sentinels createFileReceiver_def new_Blob_def new_File_def)

lemma callbacks_append: "callbacks (a @ b) = callbacks a @ callbacks b"
  by (induction a rule: callbacks.induct) auto

lemma callbacks_early:
  "fileMetadata st = None \<Longrightarrow> callbacks (receive (map Buf cs) st) = []"
  by (induction cs arbitrary: st) (simp_all add: Let_def)

lemma callbacks_chunks:
  "fileMetadata st = Some (n, sz, mt) \<Longrightarrow>
   callbacks (receive (map Buf cs) st) =
     map (\<lambda>i. onProgress (receivedBytes st + length (concat (take (Suc i) cs))) sz)
       [0..<length cs]"
proof (induction cs arbitrary: st)
  case Nil
  then show ?case by simp
next
  case (Cons c cs)
  let ?st = "st\<lparr>receivedChunks := receivedChunks st @ [c],
                receivedBytes := receivedBytes st + length c\<rparr>"
  have m: "fileMetadata ?st = Some (n, sz, mt)" using Cons.prems by simp
  have r: "receive (map Buf (c # cs)) st =
             (st, Inr [onProgress (receivedBytes st + length c) sz]) # receive (map Buf cs) ?st"
    using Cons.prems by (simp add: Let_def)
  have u: "[0..<length (c # cs)] = 0 # map Suc [0..<length cs]"
    by (simp add: upt_conv_Cons map_Suc_upt del: upt_Suc)
  show ?case
    unfolding r u using Cons.IH[OF m] by (simp add: o_def add.assoc)
qed

text \<open>
  C2. Whatever the transport does after \<open>sendFile\<close>, once the sentinel is among the frames
  sent, the receiver fed these frames in order calls \<open>onComplete\<close> exactly once; the File
  it hands over has the bytes and the name of the file sent (and its type, as the \<open>File\<close>
  constructor normalises it), and at that moment
  \<open>receivedBytes\<close> is the size declared in the stored metadata, which is the size of the
  file. A transport that keeps flushing its buffer brings every run to its sentinel.
\<close>

theorem sendFile_receiver_roundtrip:
  "(\<exists>ns. Str (Json FileEnd) \<in> set (emitted b f ns)) \<and>
   (\<forall>ns. Str (Json FileEnd) \<in> set (emitted b f ns) \<longrightarrow>
      (\<exists>st. completions (receive (emitted b f ns) createFileReceiver) =
               [(st, \<lparr>name = name f,
                      type = normalizeType
                        (if type f = [] then ''application/octet-stream'' else type f),
                      content = content f\<rparr>)]
          \<and> fileMetadata st =
               Some (name f, file_size f,
                     if type f = [] then ''application/octet-stream'' else type f)
          \<and> receivedBytes st = file_size f))"
proof (intro conjI allI impI)
  show "\<exists>ns. Str (Json FileEnd) \<in> set (emitted b f ns)"
    by (rule emitted_finishes)
next
  fix ns
  assume "Str (Json FileEnd) \<in> set (emitted b f ns)"
  then obtain j where e: "emitted b f ns =
      Str (Json (FileMeta (name f) (file_size f)
                  (if type f = [] then ''application/octet-stream'' else type f)))
      # map Buf (chunkLoop (content f) 0 []) @ replicate (Suc j) (Str (Json FileEnd))"
    using emitted_complete by blast
  have c: "concat (chunkLoop (content f) 0 []) = content f"
    by (simp add: chunkLoop_concat)
  show "\<exists>st. completions (receive (emitted b f ns) createFileReceiver) =
               [(st, \<lparr>name = name f,
                      type = normalizeType
                        (if type f = [] then ''application/octet-stream'' else type f),
                      content = content f\<rparr>)]
          \<and> fileMetadata st =
               Some (name f, file_size f,
                     if type f = [] then ''application/octet-stream'' else type f)
          \<and> receivedBytes st = file_size f"
    unfolding e receive_transfer c by (simp add: file_size_def)
qed

text \<open>A file of three bytes, sent over an idle channel.\<close>

theorem sendFile_receiver_roundtrip_witness:
  "Str (Json FileEnd) \<in> set (emitted 0 \<lparr>name = ''a.txt'', type = [], content = [1, 2, 3]\<rparr> []) \<and>
   (\<exists>st. completions (receive (emitted 0 \<lparr>name = ''a.txt'', type = [], content = [1, 2, 3]\<rparr> [])
                         createFileReceiver) =
            [(st, \<lparr>name = ''a.txt'', type = ''application/octet-stream'', content = [1, 2, 3]\<rparr>)]
       \<and> receivedBytes st = 3)"
proof -
  let ?f = "\<lparr>name = ''a.txt'', type = [], content = [1, 2, 3 :: byte]\<rparr>"
  have h: "Str (Json FileEnd) \<in> set (emitted 0 ?f [])"
    by (simp add: emitted_def sendFile_def chunkFile_def file_size_def chunkLoop.simps slice_def
          CHUNK_SIZE_def sendNextChunk_def sendLoop.simps send_def Let_def BUFFER_THRESHOLD_def
          JSON_stringify_def)
  from sendFile_receiver_roundtrip[of 0 ?f] h
  obtain st where
    c: "completions (receive (emitted 0 ?f []) createFileReceiver) =
               [(st, \<lparr>name = name ?f,
                      type = normalizeType
                        (if type ?f = [] then ''application/octet-stream'' else type ?f),
                      content = content ?f\<rparr>)]" and
    r: "receivedBytes st = file_size ?f"
    by blast
  have "completions (receive (emitted 0 ?f []) createFileReceiver) =
            [(st, \<lparr>name = ''a.txt'', type = ''application/octet-stream'', content = [1, 2, 3]\<rparr>)]"
    using c by (simp add: normalizeType_default)
  moreover have "receivedBytes st = 3"
    using r by (simp add: file_size_def)
  ultimately show ?thesis using h by blast
qed

text \<open>
  C6. \<open>sendNextChunk\<close> stays registered as \<open>onbufferedamountlow\<close> after the last chunk and
  sends the sentinel on every call made once all chunks are sent. A file of 65536 bytes
  over an idle channel: the first call sends the four chunks and the sentinel, which
  leaves 65555 bytes buffered, above the threshold of 65536; when the transport has sent
  them the event fires, and the handler sends a second sentinel.
\<close>

theorem sendFile_second_sentinel:
  "emitted 0 \<lparr>name = ''a.bin'', type = [], content = replicate 65536 0\<rparr> [65555] =
     [Str (Json (FileMeta ''a.bin'' 65536 ''application/octet-stream'')),
      Buf (replicate 16384 0), Buf (replicate 16384 0),
      Buf (replicate 16384 0), Buf (replicate 16384 0),
      Str (Json FileEnd), Str (Json FileEnd)]"
  by (simp add: emitted_def sendFile_def chunkFile_def file_size_def chunkLoop.simps slice_def
        CHUNK_SIZE_def sendNextChunk_def sendLoop.simps send_def Let_def BUFFER_THRESHOLD_def
        flushed_def JSON_stringify_def)

text \<open>
  C7, as the claim states it, fails: a chunk that arrives before the metadata, and the
  chunks received before a second metadata message, are part of the File completed at
  the sentinel, and nothing is thrown.
\<close>

theorem receiver_out_of_order_counterexample:
  "map snd (completions (receive
       [Buf [1], Str (Json (FileMeta ''f'' 2 ''t'')), Buf [2], Str (Json FileEnd)]
       createFileReceiver)) = [\<lparr>name = ''f'', type = ''t'', content = [1, 2]\<rparr>]
   \<and> thrown (receive
       [Buf [1], Str (Json (FileMeta ''f'' 2 ''t'')), Buf [2], Str (Json FileEnd)]
       createFileReceiver) = []
   \<and> map snd (completions (receive
       [Str (Json (FileMeta ''f'' 1 ''t'')), Buf [1], Str (Json (FileMeta ''g'' 1 ''u'')), Buf [2],
        Str (Json FileEnd)]
       createFileReceiver)) = [\<lparr>name = ''g'', type = ''u'', content = [1, 2]\<rparr>]
   \<and> thrown (receive
       [Str (Json (FileMeta ''f'' 1 ''t'')), Buf [1], Str (Json (FileMeta ''g'' 1 ''u'')), Buf [2],
        Str (Json FileEnd)]
       createFileReceiver) = []"
  by (simp add: createFileReceiver_def Let_def new_Blob_def new_File_def normalizeType_def
        printable_def asciiLowercase_def)

text \<open>
  C7, amended. The receiver has no failed state. A chunk that arrives before any
  metadata is appended to the buffer without any callback (no progress report), and a
  second metadata message replaces the stored metadata and keeps the buffer. The File
  completed at the sentinel holds all the bytes received since the last completion, in
  arrival order, under the name and the (normalised) type of the last metadata; the
  progress reports start with the first chunk after a metadata message and count the
  earlier bytes too; no message of such a sequence throws.
\<close>

theorem receiver_keeps_out_of_order_frames:
  "callbacks (receive (map Buf early) createFileReceiver) = []
   \<and> final (map Buf early) createFileReceiver =
       \<lparr>fileMetadata = None, receivedChunks = early, receivedBytes = length (concat early)\<rparr>
   \<and> callbacks (receive
       (map Buf early @ Str (Json (FileMeta n sz mt)) # map Buf late @ [Str (Json FileEnd)])
       createFileReceiver) =
       onMetadata n sz mt
       # map (\<lambda>i. onProgress (length (concat early) + length (concat (take (Suc i) late))) sz)
           [0..<length late]
       @ [onComplete \<lparr>name = n, type = normalizeType mt, content = concat (early @ late)\<rparr>]
   \<and> thrown (receive
       (map Buf early @ Str (Json (FileMeta n sz mt)) # map Buf late @ [Str (Json FileEnd)])
       createFileReceiver) = []
   \<and> final (Str (Json (FileMeta n sz mt)) # map Buf early @ [Str (Json (FileMeta n' sz' mt'))])
         createFileReceiver =
       \<lparr>fileMetadata = Some (n', sz', mt'), receivedChunks = early,
        receivedBytes = length (concat early)\<rparr>
   \<and> callbacks (receive
       (Str (Json (FileMeta n sz mt)) # map Buf early
          @ Str (Json (FileMeta n' sz' mt')) # map Buf late @ [Str (Json FileEnd)])
       createFileReceiver) =
       onMetadata n sz mt
       # map (\<lambda>i. onProgress (length (concat (take (Suc i) early))) sz) [0..<length early]
       @ onMetadata n' sz' mt'
       # map (\<lambda>i. onProgress (length (concat early) + length (concat (take (Suc i) late))) sz')
           [0..<length late]
       @ [onComplete \<lparr>name = n', type = normalizeType mt', content = concat (early @ late)\<rparr>]
   \<and> thrown (receive
       (Str (Json (FileMeta n sz mt)) # map Buf early
          @ Str (Json (FileMeta n' sz' mt')) # map Buf late @ [Str (Json FileEnd)])
       createFileReceiver) = []"
  by (simp add: receive_append callbacks_append thrown_append callbacks_early callbacks_chunks
        thrown_chunks final_append final_chunks createFileReceiver_def new_Blob_def new_File_def)

text \<open>
  A chunk, the metadata with type \<open>Text/Plain\<close>, a chunk, the sentinel: no callback for
  the first chunk, one progress report of 2 bytes of 2, a File of type \<open>text/plain\<close>.
\<close>

theorem receiver_keeps_out_of_order_frames_witness:
  "callbacks (receive
       [Buf [1], Str (Json (FileMeta ''f'' 2 ''Text/Plain'')), Buf [2], Str (Json FileEnd)]
       createFileReceiver) =
     [onMetadata ''f'' 2 ''Text/Plain'', onProgress 2 2,
      onComplete \<lparr>name = ''f'', type = ''text/plain'', content = [1, 2]\<rparr>]
   \<and> callbacks (receive [Buf [1]] createFileReceiver) = []"
proof -
  note t = receiver_keeps_out_of_order_frames[of "[[1]]" "''f''" 2 "''Text/Plain''" "[[2]]"]
  have nt: "normalizeType ''Text/Plain'' = ''text/plain''"
    by (simp add: normalizeType_def printable_def asciiLowercase_def)
  have a: "callbacks (receive (map Buf [[1]]) createFileReceiver) = []"
    using t by (rule conjunct1)
  have b: "callbacks (receive
       (map Buf [[1]] @ Str (Json (FileMeta ''f'' 2 ''Text/Plain'')) # map Buf [[2]]
          @ [Str (Json FileEnd)])
       createFileReceiver) =
       onMetadata ''f'' 2 ''Text/Plain''
       # map (\<lambda>i. onProgress (length (concat [[1::byte]]) + length (concat (take (Suc i) [[2::byte]]))) 2)
           [0..<length [[2::byte]]]
       @ [onComplete \<lparr>name = ''f'', type = normalizeType ''Text/Plain'',
                        content = concat ([[1]] @ [[2]])\<rparr>]"
    using t[THEN conjunct2, THEN conjunct2] by (rule conjunct1)
  have a': "callbacks (receive [Buf [1]] createFileReceiver) = []"
    using a by (simp only: list.map)
  have b': "callbacks (receive
       [Buf [1], Str (Json (FileMeta ''f'' 2 ''Text/Plain'')), Buf [2], Str (Json FileEnd)]
       createFileReceiver) =
     [onMetadata ''f'' 2 ''Text/Plain'', onProgress 2 2,
      onComplete \<lparr>name = ''f'', type = ''text/plain'', content = [1, 2]\<rparr>]"
  proof -
    have l: "map Buf [[1::byte]] @ Str (Json (FileMeta ''f'' 2 ''Text/Plain'')) # map Buf [[2]]
          @ [Str (Json FileEnd)] =
          [Buf [1], Str (Json (FileMeta ''f'' 2 ''Text/Plain'')), Buf [2], Str (Json FileEnd)]"
      by simp
    have r: "onMetadata ''f'' 2 ''Text/Plain''
       # map (\<lambda>i. onProgress (length (concat [[1::byte]]) + length (concat (take (Suc i) [[2::byte]]))) 2)
           [0..<length [[2::byte]]]
       @ [onComplete \<lparr>name = ''f'', type = normalizeType ''Text/Plain'',
                        content = concat ([[1]] @ [[2]])\<rparr>] =
       [onMetadata ''f'' 2 ''Text/Plain'', onProgress 2 2,
        onComplete \<lparr>name = ''f'', type = ''text/plain'', content = [1, 2]\<rparr>]"
      by (simp add: nt)
    show ?thesis using b unfolding l r .
  qed
  show ?thesis using a' b' by (rule conjI[rotated])
qed

text \<open>
  C10. \<open>handleMessage\<close> throws: a \<open>file-end\<close> message that finds no stored metadata reads
  \<open>fileMetadata.mimeType\<close> of \<open>null\<close>, and a string that is not JSON makes \<open>JSON.parse\<close>
  throw. The binary branch tests \<open>if (fileMetadata)\<close>; the \<open>file-end\<close> branch does not.
\<close>

theorem handleMessage_throws:
  "handleMessage (Str (Json FileEnd)) createFileReceiver = Inl TypeError
   \<and> handleMessage (Str NotJson) createFileReceiver = Inl SyntaxError
   \<and> thrown (receive
        [Str (Json (FileMeta ''f'' 1 ''t'')), Buf [1], Str (Json FileEnd), Str (Json FileEnd)]
        createFileReceiver) = [TypeError]"
  by (simp add: createFileReceiver_def Let_def)

section \<open>Properties of the signaling server\<close>

subsection \<open>Codes are never the empty string\<close>

lemma toString_nonempty: "toString n \<noteq> []"
  by (subst toString.simps) simp

lemma generateUniqueCode_Some:
  "generateUniqueCode rs ds = Some c \<Longrightarrow> c \<noteq> [] \<and> rs c = None"
  by (induction ds) (auto simp: Let_def generateCode_def toString_nonempty split: if_splits)

lemma sendMessage_rooms: "rooms (sendMessage ws m s) = rooms s"
  by (simp add: sendMessage_def)

lemma sendMessage_currentCode: "currentCode (sendMessage ws m s) = currentCode s"
  by (simp add: sendMessage_def)

lemma sendMessage_currentRole: "currentRole (sendMessage ws m s) = currentRole s"
  by (simp add: sendMessage_def)

lemma sendMessage_readyState: "readyState (sendMessage ws m s) = readyState s"
  by (simp add: sendMessage_def)

lemma sendMessage_outbox:
  "outbox (sendMessage ws m s) = outbox s @ (if readyState s ws = OPEN then [(ws, m)] else [])"
  by (simp add: sendMessage_def)

lemmas sendMessage_simps =
  sendMessage_rooms sendMessage_currentCode sendMessage_currentRole sendMessage_readyState
  sendMessage_outbox

lemma dispatch_rooms:
  assumes "dispatch ws m draws s = Inr s'" and "rooms s' k = Some r"
  shows "rooms s k \<noteq> None \<or> k \<noteq> []"
proof (cases m)
  case CreateRoom
  then show ?thesis
    using assms generateUniqueCode_Some[of "rooms s" draws]
    by (auto simp: sendMessage_simps split: option.splits if_splits)
next
  case (JoinRoom c)
  then show ?thesis
    using assms by (auto simp: sendMessage_simps split: option.splits if_splits)
next
  case SessionEnded
  then show ?thesis
    using assms by (auto simp: sendMessage_simps split: option.splits if_splits)
qed (use assms in \<open>auto simp: sendMessage_simps split: option.splits\<close>)

lemma handleDisconnect_rooms:
  "rooms (handleDisconnect c r s) k = Some room \<Longrightarrow> rooms s k = Some room"
  by (auto simp: handleDisconnect_def Let_def sendMessage_simps split: option.splits if_splits)

lemma handle_rooms:
  assumes "handle ev s = Inr s'" and "rooms s' k = Some r"
  shows "rooms s k \<noteq> None \<or> k \<noteq> []"
proof (cases ev)
  case Connection
  then show ?thesis using assms by auto
next
  case (Message ws d draws)
  show ?thesis
  proof (cases d)
    case InvalidJson
    then show ?thesis using assms Message by (auto simp: sendMessage_simps)
  next
    case NullJson
    then show ?thesis using assms Message by simp
  next
    case (Parsed m)
    then show ?thesis using assms Message dispatch_rooms[of ws m draws s s' k r] by simp
  qed
next
  case (Closing ws)
  then show ?thesis using assms by auto
next
  case (Close ws)
  have "rooms (s\<lparr>readyState := (readyState s)(ws := CLOSED)\<rparr>) k = Some r"
    using assms Close
      handleDisconnect_rooms[of "currentCode s ws" "currentRole s ws"
        "s\<lparr>readyState := (readyState s)(ws := CLOSED)\<rparr>" k r]
    by simp
  then show ?thesis by simp
next
  case (SocketError ws)
  then show ?thesis using assms by auto
qed

lemma reachable_codes: "reachable s \<Longrightarrow> rooms s k = Some r \<Longrightarrow> k \<noteq> []"
proof (induction arbitrary: k r rule: reachable.induct)
  case start
  then show ?case by (simp add: startup_def)
next
  case (step s ev s')
  then show ?case using handle_rooms[of ev s s' k r] by blast
qed

lemma reachable_currentRoom:
  "reachable s \<Longrightarrow> currentCode s ws = Some k \<Longrightarrow> currentRoom s (currentCode s ws) = rooms s k"
  using reachable_codes[of s k] by (cases "rooms s k") (auto simp: currentRoom_def)

lemma run_reachable: "reachable s \<Longrightarrow> run evs s = Inr s' \<Longrightarrow> reachable s'"
proof (induction evs arbitrary: s)
  case Nil
  then show ?case by simp
next
  case (Cons ev evs)
  then show ?case by (auto split: sum.splits intro: reachable.step)
qed

subsection \<open>A room with both peers\<close>

lemma toString_4821: "toString 4821 = ''4821''"
  by (simp add: toString.simps digit_def)

lemma toString_1234: "toString 1234 = ''1234''"
  by (simp add: toString.simps digit_def)

lemma paired_run:
  "run [Connection, Connection, Message 0 (Parsed CreateRoom) [4821],
        Message 1 (Parsed (JoinRoom ''4821'')) []] startup =
   Inr \<lparr>rooms = [''4821'' \<mapsto> \<lparr>sender = 0, receiver = Some 1\<rparr>],
        currentCode = (\<lambda>ws. None)(0 := Some ''4821'', 1 := Some ''4821''),
        currentRole = (\<lambda>ws. None)(0 := Some Sender, 1 := Some Receiver),
        readyState = (\<lambda>ws. CLOSED)(0 := OPEN, 1 := OPEN),
        accepted = 2,
        outbox = [(0, RoomCreated ''4821''), (1, RoomJoined ''4821''), (0, PeerJoined)]\<rparr>"
  by (simp add: startup_def generateCode_def toString_4821 sendMessage_def Let_def fun_upd_twist
        numeral_2_eq_2)


subsection \<open>Closing a connection\<close>






subsection \<open>session-ended\<close>

text \<open>
  C9. BE/server_nocmt.js has no \<open>session-ended\<close> case. In room 4821 with both peers the
  receiver sends \<open>session-ended\<close>: the message falls to \<open>default\<close>, nothing is sent to the
  sender, and the room stays. BE/server.js, which has the case, sends the sender
  \<open>The receiver has ended the session\<close> on the same run, and the receiver
  \<open>The sender has ended the session\<close> when it is the sender that ends the session.
\<close>

theorem session_ended_dropped:
  "sends_nocmt ([Connection, Connection, Message 0 (Parsed CreateRoom) [4821],
                 Message 1 (Parsed (JoinRoom ''4821'')) [],
                 Message 1 (Parsed SessionEnded) []] :: string event list) =
     Some [(0, RoomCreated ''4821''), (1, RoomJoined ''4821''), (0, PeerJoined)]
   \<and> registry_nocmt ([Connection, Connection, Message 0 (Parsed CreateRoom) [4821],
                 Message 1 (Parsed (JoinRoom ''4821'')) [],
                 Message 1 (Parsed SessionEnded) []] :: string event list) ''4821'' =
     Some (Some \<lparr>sender = 0, receiver = Some 1\<rparr>)
   \<and> sends ([Connection, Connection, Message 0 (Parsed CreateRoom) [4821],
                 Message 1 (Parsed (JoinRoom ''4821'')) [],
                 Message 1 (Parsed SessionEnded) []] :: string event list) =
     Some [(0, RoomCreated ''4821''), (1, RoomJoined ''4821''), (0, PeerJoined),
           (0, SessionEndedMessage ''The receiver has ended the session'')]
   \<and> sends ([Connection, Connection, Message 0 (Parsed CreateRoom) [4821],
                 Message 1 (Parsed (JoinRoom ''4821'')) [],
                 Message 0 (Parsed SessionEnded) []] :: string event list) =
     Some [(0, RoomCreated ''4821''), (1, RoomJoined ''4821''), (0, PeerJoined),
           (1, SessionEndedMessage ''The sender has ended the session'')]"
  by (simp add: sends_nocmt_def registry_nocmt_def registry_def sends_def startup_def
        generateCode_def toString_4821 sendMessage_def Let_def currentRoom_def otherPeer_def)

text \<open>
  What BE/server.js does in general. Let \<open>ws\<close> be bound to code \<open>k\<close>, and let \<open>k\<close> name a room
  that has \<open>ws\<close> in the slot of its role. A \<open>session-ended\<close> of \<open>ws\<close> sends one
  \<open>session-ended\<close> message to the connection in the other slot, if there is one and it is
  open, and changes nothing else, so the room is still there.
\<close>

lemma session_ended_to_counterpart:
  assumes "reachable s" and "currentCode s ws = Some k" and "rooms s k = Some room"
    and "(currentRole s ws = Some Sender \<and> sender room = ws)
         \<or> (currentRole s ws = Some Receiver \<and> receiver room = Some ws)"
  shows "onMessage ws (Parsed SessionEnded) draws s =
           Inr (s\<lparr>outbox := outbox s @
                 (if currentRole s ws = Some Sender
                  then (case receiver room of
                          None \<Rightarrow> []
                        | Some p \<Rightarrow>
                            if readyState s p = OPEN
                            then [(p, SessionEndedMessage ''The sender has ended the session'')]
                            else [])
                  else (if readyState s (sender room) = OPEN
                        then [(sender room,
                                SessionEndedMessage ''The receiver has ended the session'')]
                        else []))\<rparr>)"
  using assms(3,4) reachable_currentRoom[OF assms(1,2)]
  by (auto simp: sendMessage_def otherPeer_def split: option.splits)

text \<open>
  In BE/server_nocmt.js the message is an unknown type and nothing happens. On every
  other message the two handlers agree, and a step of the copy is a step of the model.
\<close>

lemma session_ended_nocmt: "onMessage_nocmt ws (Parsed SessionEnded) draws s = Inr s"
  by (simp add: onMessage_nocmt_def)

lemma onMessage_nocmt_same:
  "d \<noteq> Parsed SessionEnded \<Longrightarrow> onMessage_nocmt ws d draws s = onMessage ws d draws s"
  by (cases d rule: nocmt.cases) (simp_all add: onMessage_nocmt_def)

lemma onMessage_nocmt_reachable:
  "reachable s \<Longrightarrow> onMessage_nocmt ws d draws s = Inr s' \<Longrightarrow> reachable s'"
  using reachable.step[of s "Message ws (nocmt d) draws" s']
  by (simp add: onMessage_nocmt_def)

subsection \<open>Relaying the negotiation messages\<close>

text \<open>
  C1, as the claim states it, fails. First run: the receiver of room 4821 sends an
  \<open>offer\<close>, and the offer is sent back to the receiver itself, not to the sender of the
  room. Second run: connection 0 created room 4821, its peer closed (which deleted the
  room), connection 2 was then given the free code 4821 and connection 3 joined;
  an \<open>offer\<close> of connection 0, whose \<open>currentCode\<close> is still 4821, is sent to connection 3.
\<close>

theorem relay_counterexample:
  "sends [Connection, Connection, Message 0 (Parsed CreateRoom) [4821],
          Message 1 (Parsed (JoinRoom ''4821'')) [], Message 1 (Parsed (Offer ''sdp'')) []] =
     Some [(0, RoomCreated ''4821''), (1, RoomJoined ''4821''), (0, PeerJoined),
           (1, OfferMessage ''sdp'')]
   \<and> sends [Connection, Connection, Message 0 (Parsed CreateRoom) [4821],
          Message 1 (Parsed (JoinRoom ''4821'')) [], Close 1,
          Connection, Connection, Message 2 (Parsed CreateRoom) [4821],
          Message 3 (Parsed (JoinRoom ''4821'')) [], Message 0 (Parsed (Offer ''sdp'')) []] =
     Some [(0, RoomCreated ''4821''), (1, RoomJoined ''4821''), (0, PeerJoined),
           (0, PeerDisconnected ''The receiver has disconnected''),
           (2, RoomCreated ''4821''), (3, RoomJoined ''4821''), (2, PeerJoined),
           (3, OfferMessage ''sdp'')]"
  by (simp add: sends_def startup_def generateCode_def toString_4821 sendMessage_def Let_def
        currentRoom_def handleDisconnect_def otherPeer_def)

text \<open>
  C1, amended. Let \<open>ws\<close> be bound to code \<open>k\<close>, and let \<open>k\<close> name a room that has \<open>ws\<close> in one
  of its slots. An \<open>offer\<close> and a \<open>file-meta\<close> of \<open>ws\<close> go to the connection in the receiver
  slot and an \<open>answer\<close> to the one in the sender slot, whatever the role of \<open>ws\<close>; an
  \<open>ice-candidate\<close> goes to the receiver slot when \<open>ws\<close> has the role sender and to the sender
  slot otherwise. The message sent carries the fields of the message received. It is
  sent to that one connection and to no other, and only when that connection is open;
  when the slot is empty or the connection is not open, nothing is sent. Nothing else
  changes.
\<close>

theorem relay_targets:
  assumes "reachable s" and "currentCode s ws = Some k" and "rooms s k = Some room"
    and "sender room = ws \<or> receiver room = Some ws"
  shows "onMessage ws (Parsed (Offer p)) draws s =
           Inr (s\<lparr>outbox := outbox s @
                 (case receiver room of
                    None \<Rightarrow> []
                  | Some r \<Rightarrow> if readyState s r = OPEN then [(r, OfferMessage p)] else [])\<rparr>)
       \<and> onMessage ws (Parsed (RelayFileMeta fileName fileSize fileType)) draws s =
           Inr (s\<lparr>outbox := outbox s @
                 (case receiver room of
                    None \<Rightarrow> []
                  | Some r \<Rightarrow> if readyState s r = OPEN
                             then [(r, FileMetaMessage fileName fileSize fileType)] else [])\<rparr>)
       \<and> onMessage ws (Parsed (Answer p)) draws s =
           Inr (s\<lparr>outbox := outbox s @
                 (if readyState s (sender room) = OPEN
                  then [(sender room, AnswerMessage p)] else [])\<rparr>)
       \<and> onMessage ws (Parsed (IceCandidate p)) draws s =
           Inr (s\<lparr>outbox := outbox s @
                 (case (if currentRole s ws = Some Sender then receiver room
                        else Some (sender room)) of
                    None \<Rightarrow> []
                  | Some r \<Rightarrow> if readyState s r = OPEN then [(r, IceCandidateMessage p)] else [])\<rparr>)"
  using reachable_currentRoom[OF assms(1,2)] assms(3)
  by (auto simp: sendMessage_def otherPeer_def split: option.splits)

text \<open>
  In room 4821 the sender's offer reaches the receiver, and the receiver's answer and
  ice-candidate reach the sender.
\<close>

theorem relay_targets_witness:
  "\<exists>s. run [Connection, Connection, Message 0 (Parsed CreateRoom) [4821],
              Message 1 (Parsed (JoinRoom ''4821'')) []] (startup :: string server) = Inr s
      \<and> onMessage 0 (Parsed (Offer ''sdp'')) [] s =
            Inr (s\<lparr>outbox := outbox s @ [(1, OfferMessage ''sdp'')]\<rparr>)
      \<and> onMessage 1 (Parsed (Answer ''sdp'')) [] s =
            Inr (s\<lparr>outbox := outbox s @ [(0, AnswerMessage ''sdp'')]\<rparr>)
      \<and> onMessage 1 (Parsed (IceCandidate ''c'')) [] s =
            Inr (s\<lparr>outbox := outbox s @ [(0, IceCandidateMessage ''c'')]\<rparr>)"
proof -
  let ?s = "\<lparr>rooms = [''4821'' \<mapsto> \<lparr>sender = 0, receiver = Some 1\<rparr>],
        currentCode = (\<lambda>ws. None)(0 := Some ''4821'', 1 := Some ''4821''),
        currentRole = (\<lambda>ws. None)(0 := Some Sender, 1 := Some Receiver),
        readyState = (\<lambda>ws. CLOSED)(0 := OPEN, 1 := OPEN),
        accepted = 2,
        outbox = [(0, RoomCreated ''4821''), (1, RoomJoined ''4821''), (0, PeerJoined)]\<rparr>
        :: string server"
  have r: "reachable ?s" using run_reachable[OF reachable.start paired_run] .
  have c0: "currentCode ?s 0 = Some ''4821''" and c1: "currentCode ?s 1 = Some ''4821''"
    by simp_all
  have m: "rooms ?s ''4821'' = Some \<lparr>sender = 0, receiver = Some 1\<rparr>" by simp
  have i0: "sender \<lparr>sender = 0, receiver = Some 1\<rparr> = 0
            \<or> receiver \<lparr>sender = 0, receiver = Some 1\<rparr> = Some 0" by simp
  have i1: "sender \<lparr>sender = 0, receiver = Some 1\<rparr> = 1
            \<or> receiver \<lparr>sender = 0, receiver = Some 1\<rparr> = Some 1" by simp
  have a: "onMessage 0 (Parsed (Offer ''sdp'')) [] ?s =
            Inr (?s\<lparr>outbox := outbox ?s @ [(1, OfferMessage ''sdp'')]\<rparr>)"
    using relay_targets[OF r c0 m i0, of "''sdp''" "[]"] by simp
  have b: "onMessage 1 (Parsed (Answer ''sdp'')) [] ?s =
            Inr (?s\<lparr>outbox := outbox ?s @ [(0, AnswerMessage ''sdp'')]\<rparr>)"
    using relay_targets[OF r c1 m i1, of "''sdp''" "[]"] by simp
  have c: "onMessage 1 (Parsed (IceCandidate ''c'')) [] ?s =
            Inr (?s\<lparr>outbox := outbox ?s @ [(0, IceCandidateMessage ''c'')]\<rparr>)"
    using relay_targets[OF r c1 m i1, of "''c''" "[]"] by simp
  show ?thesis using paired_run a b c by blast
qed

subsection \<open>Joining a room\<close>

lemma join_full:
  "rooms s k = Some room \<Longrightarrow> receiver room = Some r \<Longrightarrow>
   onMessage ws (Parsed (JoinRoom k)) draws s =
     Inr (s\<lparr>outbox := outbox s @
            (if readyState s ws = OPEN
             then [(ws, ErrorMessage ''Room is full. Someone already joined.'')] else [])\<rparr>)"
  by (simp add: sendMessage_def)

lemma joins_full:
  "rooms s k = Some room \<Longrightarrow> receiver room = Some r \<Longrightarrow>
   joins wss k s =
     Inr (s\<lparr>outbox := outbox s @
            filter (\<lambda>(x, m). readyState s x = OPEN)
              (map (\<lambda>x. (x, ErrorMessage ''Room is full. Someone already joined.'')) wss)\<rparr>)"
proof (induction wss arbitrary: s)
  case Nil
  then show ?case by simp
next
  case (Cons ws wss)
  let ?s = "s\<lparr>outbox := outbox s @
            (if readyState s ws = OPEN
             then [(ws, ErrorMessage ''Room is full. Someone already joined.'')] else [])\<rparr>"
  have "rooms ?s k = Some room" using Cons.prems(1) by simp
  from Cons.IH[OF this Cons.prems(2)] join_full[OF Cons.prems, of ws "[]"]
  show ?case by simp
qed

text \<open>
  C3. A \<open>join-room\<close> with a code that names no room sends the requester the error
  \<open>Invalid code. No room found.\<close> and changes nothing else. With a code whose room has
  its receiver slot taken it sends the requester the error \<open>Room is full. Someone
  already joined.\<close> and changes nothing else. With a code whose room has a free receiver
  slot, the requester gets the slot and the role receiver, is sent \<open>room-joined\<close> with the
  code, and the room's sender is sent \<open>peer-joined\<close>; and of any further join attempts
  \<open>wss\<close> on the code each one is sent the error \<open>Room is full\<close> and changes nothing. (A
  message is sent to a connection that is open; \<open>sendMessage\<close> skips one that is not.)
\<close>

theorem join_room_outcomes:
  "(rooms s k = None \<longrightarrow>
      onMessage ws (Parsed (JoinRoom k)) draws s =
        Inr (s\<lparr>outbox := outbox s @
               (if readyState s ws = OPEN
                then [(ws, ErrorMessage ''Invalid code. No room found.'')] else [])\<rparr>))
   \<and> (\<forall>room r. rooms s k = Some room \<and> receiver room = Some r \<longrightarrow>
      onMessage ws (Parsed (JoinRoom k)) draws s =
        Inr (s\<lparr>outbox := outbox s @
               (if readyState s ws = OPEN
                then [(ws, ErrorMessage ''Room is full. Someone already joined.'')] else [])\<rparr>))
   \<and> (\<forall>room wss. rooms s k = Some room \<and> receiver room = None \<longrightarrow>
      joins (ws # wss) k s =
        Inr (s\<lparr>rooms := (rooms s)(k \<mapsto> room\<lparr>receiver := Some ws\<rparr>),
               currentCode := (currentCode s)(ws := Some k),
               currentRole := (currentRole s)(ws := Some Receiver),
               outbox := outbox s @
                 filter (\<lambda>(x, m). readyState s x = OPEN)
                   ((ws, RoomJoined k) # (sender room, PeerJoined) #
                    map (\<lambda>x. (x, ErrorMessage ''Room is full. Someone already joined.'')) wss)\<rparr>))"
proof (intro conjI allI impI)
  assume "rooms s k = None"
  then show "onMessage ws (Parsed (JoinRoom k)) draws s =
        Inr (s\<lparr>outbox := outbox s @
               (if readyState s ws = OPEN
                then [(ws, ErrorMessage ''Invalid code. No room found.'')] else [])\<rparr>)"
    by (simp add: sendMessage_def)
next
  fix room r
  assume "rooms s k = Some room \<and> receiver room = Some r"
  then show "onMessage ws (Parsed (JoinRoom k)) draws s =
        Inr (s\<lparr>outbox := outbox s @
               (if readyState s ws = OPEN
                then [(ws, ErrorMessage ''Room is full. Someone already joined.'')] else [])\<rparr>)"
    using join_full by blast
next
  fix room wss
  assume a: "rooms s k = Some room \<and> receiver room = None"
  let ?s = "s\<lparr>rooms := (rooms s)(k \<mapsto> room\<lparr>receiver := Some ws\<rparr>),
               currentCode := (currentCode s)(ws := Some k),
               currentRole := (currentRole s)(ws := Some Receiver),
               outbox := outbox s @
                 filter (\<lambda>(x, m). readyState s x = OPEN)
                   [(ws, RoomJoined k), (sender room, PeerJoined)]\<rparr>"
  have first: "onMessage ws (Parsed (JoinRoom k)) [] s = Inr ?s"
    using a by (simp add: sendMessage_def)
  have "rooms ?s k = Some (room\<lparr>receiver := Some ws\<rparr>)"
    and "receiver (room\<lparr>receiver := Some ws\<rparr>) = Some ws"
    by simp_all
  from joins_full[OF this, of wss] first
  show "joins (ws # wss) k s =
        Inr (s\<lparr>rooms := (rooms s)(k \<mapsto> room\<lparr>receiver := Some ws\<rparr>),
               currentCode := (currentCode s)(ws := Some k),
               currentRole := (currentRole s)(ws := Some Receiver),
               outbox := outbox s @
                 filter (\<lambda>(x, m). readyState s x = OPEN)
                   ((ws, RoomJoined k) # (sender room, PeerJoined) #
                    map (\<lambda>x. (x, ErrorMessage ''Room is full. Someone already joined.'')) wss)\<rparr>)"
    by simp
qed


lemma waiting_run:
  "run [Connection, Connection, Connection, Message 0 (Parsed CreateRoom) [4821]] startup =
   Inr \<lparr>rooms = [''4821'' \<mapsto> \<lparr>sender = 0, receiver = None\<rparr>],
        currentCode = (\<lambda>ws. None)(0 := Some ''4821''),
        currentRole = (\<lambda>ws. None)(0 := Some Sender),
        readyState = (\<lambda>ws. CLOSED)(0 := OPEN, 1 := OPEN, 2 := OPEN),
        accepted = 3,
        outbox = [(0, RoomCreated ''4821'')]\<rparr>"
  by (simp add: startup_def generateCode_def toString_4821 sendMessage_def Let_def
        numeral_2_eq_2 numeral_3_eq_3)

text \<open>
  Room 4821 is created; connection 1 joins and the sender is told; connection 2 finds
  the room full; a join with 9999 finds no room.
\<close>

theorem join_room_outcomes_witness:
  "\<exists>s s'. run [Connection, Connection, Connection, Message 0 (Parsed CreateRoom) [4821]]
             (startup :: string server) = Inr s
      \<and> rooms s ''9999'' = None
      \<and> onMessage 2 (Parsed (JoinRoom ''9999'')) [] s =
            Inr (s\<lparr>outbox := outbox s @ [(2, ErrorMessage ''Invalid code. No room found.'')]\<rparr>)
      \<and> rooms s ''4821'' = Some \<lparr>sender = 0, receiver = None\<rparr>
      \<and> joins [1, 2] ''4821'' s = Inr s'
      \<and> rooms s' ''4821'' = Some \<lparr>sender = 0, receiver = Some 1\<rparr>
      \<and> outbox s' = outbox s @ [(1, RoomJoined ''4821''), (0, PeerJoined),
                                 (2, ErrorMessage ''Room is full. Someone already joined.'')]
      \<and> onMessage 2 (Parsed (JoinRoom ''4821'')) [] s' =
            Inr (s'\<lparr>outbox := outbox s' @
                   [(2, ErrorMessage ''Room is full. Someone already joined.'')]\<rparr>)"
proof -
  let ?s = "\<lparr>rooms = [''4821'' \<mapsto> \<lparr>sender = 0, receiver = None\<rparr>],
        currentCode = (\<lambda>ws. None)(0 := Some ''4821''),
        currentRole = (\<lambda>ws. None)(0 := Some Sender),
        readyState = (\<lambda>ws. CLOSED)(0 := OPEN, 1 := OPEN, 2 := OPEN),
        accepted = 3,
        outbox = [(0, RoomCreated ''4821'')]\<rparr> :: string server"
  let ?room = "\<lparr>sender = 0, receiver = None\<rparr>"
  let ?s' = "?s\<lparr>rooms := (rooms ?s)(''4821'' \<mapsto> ?room\<lparr>receiver := Some 1\<rparr>),
               currentCode := (currentCode ?s)(1 := Some ''4821''),
               currentRole := (currentRole ?s)(1 := Some Receiver),
               outbox := outbox ?s @
                 filter (\<lambda>(x, m). readyState ?s x = OPEN)
                   ((1, RoomJoined ''4821'') # (sender ?room, PeerJoined) #
                    map (\<lambda>x. (x, ErrorMessage ''Room is full. Someone already joined.'')) [2])\<rparr>"
  have n: "rooms ?s ''9999'' = None" by simp
  have m: "rooms ?s ''4821'' = Some ?room" by simp
  have a: "onMessage 2 (Parsed (JoinRoom ''9999'')) [] ?s =
            Inr (?s\<lparr>outbox := outbox ?s @ [(2, ErrorMessage ''Invalid code. No room found.'')]\<rparr>)"
    using join_room_outcomes[of ?s "''9999''" 2 "[]"] n by simp
  have b: "joins [1, 2] ''4821'' ?s = Inr ?s'"
    using join_room_outcomes[of ?s "''4821''" 1 "[]"] m by simp
  have m': "rooms ?s' ''4821'' = Some \<lparr>sender = 0, receiver = Some 1\<rparr>" by simp
  have o: "outbox ?s' = outbox ?s @ [(1, RoomJoined ''4821''), (0, PeerJoined),
                                 (2, ErrorMessage ''Room is full. Someone already joined.'')]"
    by simp
  have c: "onMessage 2 (Parsed (JoinRoom ''4821'')) [] ?s' =
            Inr (?s'\<lparr>outbox := outbox ?s' @
                   [(2, ErrorMessage ''Room is full. Someone already joined.'')]\<rparr>)"
    using join_room_outcomes[of ?s' "''4821''" 2 "[]"] m' by simp
  show ?thesis
    using waiting_run n a m b m' o c by blast
qed

subsection \<open>The code and role of a connection\<close>

lemma dispatch_binding:
  assumes "dispatch ws' m draws s = Inr s'"
    and "currentCode s' ws \<noteq> currentCode s ws \<or> currentRole s' ws \<noteq> currentRole s ws"
  shows "ws' = ws \<and>
         ((m = CreateRoom \<and> (\<exists>code. generateUniqueCode (rooms s) draws = Some code
               \<and> currentCode s' ws = Some code \<and> currentRole s' ws = Some Sender))
          \<or> (\<exists>k room. m = JoinRoom k \<and> rooms s k = Some room \<and> receiver room = None
               \<and> currentCode s' ws = Some k \<and> currentRole s' ws = Some Receiver))"
  using assms
  by (cases m) (auto simp: sendMessage_simps split: option.splits if_splits)

lemma handleDisconnect_binding:
  "currentCode (handleDisconnect c r s) = currentCode s
   \<and> currentRole (handleDisconnect c r s) = currentRole s"
  by (auto simp: handleDisconnect_def Let_def sendMessage_simps split: option.splits)

lemma handle_binding:
  assumes "handle ev s = Inr s'"
    and "currentCode s' ws \<noteq> currentCode s ws \<or> currentRole s' ws \<noteq> currentRole s ws"
  shows "(\<exists>draws code. ev = Message ws (Parsed CreateRoom) draws
            \<and> generateUniqueCode (rooms s) draws = Some code
            \<and> currentCode s' ws = Some code \<and> currentRole s' ws = Some Sender)
       \<or> (\<exists>k room draws. ev = Message ws (Parsed (JoinRoom k)) draws
            \<and> rooms s k = Some room \<and> receiver room = None
            \<and> currentCode s' ws = Some k \<and> currentRole s' ws = Some Receiver)
       \<or> (ev = Connection \<and> ws = accepted s)"
proof (cases ev)
  case Connection
  then show ?thesis using assms by (auto split: if_splits)
next
  case (Message ws' d draws)
  show ?thesis
  proof (cases d)
    case InvalidJson
    then show ?thesis using assms Message by (auto simp: sendMessage_simps)
  next
    case NullJson
    then show ?thesis using assms Message by simp
  next
    case (Parsed m)
    then show ?thesis
      using assms Message dispatch_binding[of ws' m draws s s' ws] by auto
  qed
next
  case (Closing ws')
  then show ?thesis using assms by auto
next
  case (Close ws')
  then show ?thesis using assms by (auto simp: handleDisconnect_binding)
next
  case (SocketError ws')
  then show ?thesis using assms by auto
qed

text \<open>
  C8, as the claim states it, fails. Connection 0 creates room 4821 and is bound to it as
  sender. A second \<open>create-room\<close> binds it to 1234. And when connection 1 has created
  room 1234, a \<open>join-room\<close> of connection 0 binds it to 1234 with the role receiver.
\<close>

theorem rebinding_counterexample:
  "binding ([Connection, Message 0 (Parsed CreateRoom) [4821]] :: string event list) 0 =
     Some (Some ''4821'', Some Sender)
   \<and> binding ([Connection, Message 0 (Parsed CreateRoom) [4821],
                Message 0 (Parsed CreateRoom) [1234]] :: string event list) 0 =
     Some (Some ''1234'', Some Sender)
   \<and> binding ([Connection, Connection, Message 0 (Parsed CreateRoom) [4821],
                Message 1 (Parsed CreateRoom) [1234],
                Message 0 (Parsed (JoinRoom ''1234'')) []] :: string event list) 0 =
     Some (Some ''1234'', Some Receiver)"
  by (simp add: binding_def startup_def generateCode_def toString_4821 toString_1234
        sendMessage_def Let_def)

text \<open>
  C8, amended. \<open>create-room\<close> and \<open>join-room\<close> are handled in every state of the
  connection, bound or not: a \<open>create-room\<close> whose code loop returns binds the connection
  to the new code with the role sender, and a \<open>join-room\<close> on a room with a free receiver
  slot binds it to that code with the role receiver, whatever code and role it had. The
  code and the role of a connection change in no other way: an event that changes them
  is such a message of the connection itself, or the \<open>connection\<close> event that creates the
  connection and sets both to \<open>null\<close>.
\<close>

theorem binding_changes:
  "(handle ev s = Inr s'
      \<and> (currentCode s' ws \<noteq> currentCode s ws \<or> currentRole s' ws \<noteq> currentRole s ws) \<longrightarrow>
        (\<exists>draws code. ev = Message ws (Parsed CreateRoom) draws
            \<and> generateUniqueCode (rooms s) draws = Some code
            \<and> currentCode s' ws = Some code \<and> currentRole s' ws = Some Sender)
      \<or> (\<exists>k room draws. ev = Message ws (Parsed (JoinRoom k)) draws
            \<and> rooms s k = Some room \<and> receiver room = None
            \<and> currentCode s' ws = Some k \<and> currentRole s' ws = Some Receiver)
      \<or> (ev = Connection \<and> ws = accepted s))
   \<and> (\<forall>draws code. generateUniqueCode (rooms s) draws = Some code \<longrightarrow>
        (\<exists>t. handle (Message ws (Parsed CreateRoom) draws) s = Inr t
            \<and> currentCode t ws = Some code \<and> currentRole t ws = Some Sender))
   \<and> (\<forall>k room draws. rooms s k = Some room \<and> receiver room = None \<longrightarrow>
        (\<exists>t. handle (Message ws (Parsed (JoinRoom k)) draws) s = Inr t
            \<and> currentCode t ws = Some k \<and> currentRole t ws = Some Receiver))"
proof (intro conjI allI impI)
  assume "handle ev s = Inr s'
      \<and> (currentCode s' ws \<noteq> currentCode s ws \<or> currentRole s' ws \<noteq> currentRole s ws)"
  then show "(\<exists>draws code. ev = Message ws (Parsed CreateRoom) draws
            \<and> generateUniqueCode (rooms s) draws = Some code
            \<and> currentCode s' ws = Some code \<and> currentRole s' ws = Some Sender)
      \<or> (\<exists>k room draws. ev = Message ws (Parsed (JoinRoom k)) draws
            \<and> rooms s k = Some room \<and> receiver room = None
            \<and> currentCode s' ws = Some k \<and> currentRole s' ws = Some Receiver)
      \<or> (ev = Connection \<and> ws = accepted s)"
    using handle_binding[of ev s s' ws] by blast
next
  fix draws code
  assume "generateUniqueCode (rooms s) draws = Some code"
  then show "\<exists>t. handle (Message ws (Parsed CreateRoom) draws) s = Inr t
            \<and> currentCode t ws = Some code \<and> currentRole t ws = Some Sender"
    by (simp add: sendMessage_simps)
next
  fix k room draws
  assume "rooms s k = Some room \<and> receiver room = None"
  then show "\<exists>t. handle (Message ws (Parsed (JoinRoom k)) draws) s = Inr t
            \<and> currentCode t ws = Some k \<and> currentRole t ws = Some Receiver"
    by (auto simp: sendMessage_simps)
qed

text \<open>
  The sender of room 4821 is bound to it; with the draw 1234 a second \<open>create-room\<close>
  binds it to 1234, and a \<open>join-room\<close> on its own room makes it the receiver.
\<close>

theorem binding_changes_witness:
  "\<exists>s t u. run [Connection, Connection, Connection, Message 0 (Parsed CreateRoom) [4821]]
             (startup :: string server) = Inr s
      \<and> currentCode s 0 = Some ''4821'' \<and> currentRole s 0 = Some Sender
      \<and> generateUniqueCode (rooms s) [1234] = Some ''1234''
      \<and> handle (Message 0 (Parsed CreateRoom) [1234]) s = Inr t
      \<and> currentCode t 0 = Some ''1234'' \<and> currentRole t 0 = Some Sender
      \<and> rooms s ''4821'' = Some \<lparr>sender = 0, receiver = None\<rparr>
      \<and> handle (Message 0 (Parsed (JoinRoom ''4821'')) []) s = Inr u
      \<and> currentCode u 0 = Some ''4821'' \<and> currentRole u 0 = Some Receiver
      \<and> ((\<exists>draws code. (Message 0 (Parsed (JoinRoom ''4821'')) [] :: string event)
                = Message 0 (Parsed CreateRoom) draws
              \<and> generateUniqueCode (rooms s) draws = Some code
              \<and> currentCode u 0 = Some code \<and> currentRole u 0 = Some Sender)
         \<or> (\<exists>k room draws. (Message 0 (Parsed (JoinRoom ''4821'')) [] :: string event)
                = Message 0 (Parsed (JoinRoom k)) draws
              \<and> rooms s k = Some room \<and> receiver room = None
              \<and> currentCode u 0 = Some k \<and> currentRole u 0 = Some Receiver)
         \<or> ((Message 0 (Parsed (JoinRoom ''4821'')) [] :: string event) = Connection
              \<and> 0 = accepted s))"
proof -
  let ?s = "\<lparr>rooms = [''4821'' \<mapsto> \<lparr>sender = 0, receiver = None\<rparr>],
        currentCode = (\<lambda>ws. None)(0 := Some ''4821''),
        currentRole = (\<lambda>ws. None)(0 := Some Sender),
        readyState = (\<lambda>ws. CLOSED)(0 := OPEN, 1 := OPEN, 2 := OPEN),
        accepted = 3,
        outbox = [(0, RoomCreated ''4821'')]\<rparr> :: string server"
  let ?join = "Message 0 (Parsed (JoinRoom ''4821'')) [] :: string event"
  have w: "run [Connection, Connection, Connection, Message 0 (Parsed CreateRoom) [4821]]
             (startup :: string server) = Inr ?s"
    by (rule waiting_run)
  have c1: "currentCode ?s 0 = Some ''4821''" and c2: "currentRole ?s 0 = Some Sender"
    by simp_all
  have g: "generateUniqueCode (rooms ?s) [1234] = Some ''1234''"
    by (simp add: generateCode_def toString_1234 Let_def)
  have m1: "rooms ?s ''4821'' = Some \<lparr>sender = 0, receiver = None\<rparr>" by simp
  have m: "rooms ?s ''4821'' = Some \<lparr>sender = 0, receiver = None\<rparr>
           \<and> receiver \<lparr>sender = 0, receiver = None\<rparr> = None" by simp
  obtain t where
    t1: "handle (Message 0 (Parsed CreateRoom) [1234]) ?s = Inr t" and
    t2: "currentCode t 0 = Some ''1234''" and t3: "currentRole t 0 = Some Sender"
    using binding_changes[of ?join ?s ?s 0, THEN conjunct2, THEN conjunct1, rule_format, OF g]
    by (elim exE conjE)
  obtain u where
    u1: "handle ?join ?s = Inr u" and
    u2: "currentCode u 0 = Some ''4821''" and u3: "currentRole u 0 = Some Receiver"
    using binding_changes[of ?join ?s ?s 0, THEN conjunct2, THEN conjunct2, rule_format, OF m, of "[]"]
    by (elim exE conjE)
  have d: "currentRole u 0 \<noteq> currentRole ?s 0" using u3 by simp
  have h: "handle ?join ?s = Inr u
      \<and> (currentCode u 0 \<noteq> currentCode ?s 0 \<or> currentRole u 0 \<noteq> currentRole ?s 0)"
    using u1 d by (intro conjI disjI2)
  note e = binding_changes[of ?join ?s u 0, THEN conjunct1, THEN mp, OF h]
  show ?thesis
    by (rule exI[of _ ?s], rule exI[of _ t], rule exI[of _ u])
       (intro conjI w c1 c2 g t1 t2 t3 m1 u1 u2 u3 e)
qed

end
